theory Spec2Isabelle
  imports Complex_Main
begin

section \<open>Quick Open (src/search/QuickOpen.js)\<close>

text \<open>
  A shallow embedding of the Quick Open module. JavaScript strings are modelled as
  \<^typ>\<open>string\<close> (one \<^typ>\<open>char\<close> per code unit), \<open>undefined\<close> and \<open>null\<close> as
  \<^const>\<open>None\<close>, objects of the module as records, and calls into other modules
  (editor, modal bar, console, string matcher) either as parameters that supply what the
  call returns or as entries of a list of effects, in program order. A call on \<open>null\<close> or
  \<open>undefined\<close> throws; an operation that throws returns \<open>Inl TypeError\<close>, and the state
  it had reached by then is not kept.
\<close>

subsection \<open>String primitives of the language\<close>

text \<open>\<open>s.lastIndexOf(c)\<close> for a one-character needle: the last index of \<open>c\<close>, or \<open>-1\<close>.\<close>

definition lastIndexOf :: "string \<Rightarrow> char \<Rightarrow> int" where
  "lastIndexOf s c =
     (if c \<in> set s
      then int (length s) - 1 - int (length (takeWhile (\<lambda>x. x \<noteq> c) (rev s)))
      else - 1)"

text \<open>
  \<open>s.slice(start, end)\<close>: a negative index counts from the end, both indices are clamped
  to the string, and the result is empty when \<open>end\<close> does not lie after \<open>start\<close>.
\<close>

definition clamp_index :: "nat \<Rightarrow> int \<Rightarrow> nat" where
  "clamp_index len i = (if i < 0 then nat (max (int len + i) 0) else min (nat i) len)"

definition slice :: "string \<Rightarrow> int \<Rightarrow> int \<Rightarrow> string" where
  "slice s start end =
     (let from = clamp_index (length s) start;
          to = clamp_index (length s) end
      in take (to - from) (drop from s))"

subsection \<open>\<open>_filenameFromPath\<close>\<close>

definition filenameFromPath :: "string \<Rightarrow> bool \<Rightarrow> string" where
  "filenameFromPath path includeExtension =
     (let end =
        (if includeExtension then int (length path)
         else (let e = lastIndexOf path (CHR ''.'')
               in if e = - 1 then int (length path) else e))
      in slice path (lastIndexOf path (CHR ''/'') + 1) end)"

text \<open>The part of a string after its last occurrence of \<open>c\<close> (all of it if there is none).\<close>

definition after_last :: "char \<Rightarrow> string \<Rightarrow> string" where
  "after_last c s = rev (takeWhile (\<lambda>x. x \<noteq> c) (rev s))"

subsection \<open>Numbers of the language\<close>

text \<open>
  A JavaScript number is \<open>NaN\<close>, an infinity or a finite value. Finite values are kept as
  exact rationals and \<open>x - 1\<close> is exact subtraction, which is what a double computes on
  the integers of magnitude up to \<open>2^53\<close>; the theorems about line and column numbers
  are stated for numerals in that range.
\<close>

datatype jsnum = NaN | Num rat | PInf | NInf

definition is_digit :: "char \<Rightarrow> bool" where
  "is_digit c = (48 \<le> (of_char c :: int) \<and> (of_char c :: int) \<le> 57)"

definition dec_value :: "string \<Rightarrow> int" where
  "dec_value s = foldl (\<lambda>acc c. 10 * acc + ((of_char c :: int) - 48)) 0 s"

definition decimal_numeral :: "string \<Rightarrow> bool" where
  "decimal_numeral s = (s \<noteq> [] \<and> list_all is_digit s \<and> dec_value s \<le> 2 ^ 53)"

text \<open>
  \<open>ToNumber\<close> on a string. A non-empty string of decimal digits whose value is at most
  \<open>2^53\<close> denotes that integer, exactly. What the language makes of any other string
  (white space, signs, fractions, exponents, hexadecimal, \<open>Infinity\<close>, numerals that a
  double has to round) is the parameter \<open>other\<close>; nothing is assumed about it.
\<close>

definition ToNumber :: "(string \<Rightarrow> jsnum) \<Rightarrow> string \<Rightarrow> jsnum" where
  "ToNumber other s = (if decimal_numeral s then Num (of_int (dec_value s)) else other s)"

text \<open>\<open>ToNumber\<close> on a capture group: an unmatched group is \<open>undefined\<close>, which is \<open>NaN\<close>.\<close>

definition group_number :: "(string \<Rightarrow> jsnum) \<Rightarrow> string option \<Rightarrow> jsnum" where
  "group_number other g = (case g of None \<Rightarrow> NaN | Some s \<Rightarrow> ToNumber other s)"

definition isNaN :: "(string \<Rightarrow> jsnum) \<Rightarrow> string option \<Rightarrow> bool" where
  "isNaN other g = (group_number other g = NaN)"

text \<open>Truthiness of a capture group: \<open>undefined\<close> and the empty string are falsy.\<close>

definition group_truthy :: "string option \<Rightarrow> bool" where
  "group_truthy g = (case g of None \<Rightarrow> False | Some s \<Rightarrow> s \<noteq> [])"

definition minus_one :: "jsnum \<Rightarrow> jsnum" where
  "minus_one x = (case x of NaN \<Rightarrow> NaN | Num r \<Rightarrow> Num (r - 1) | PInf \<Rightarrow> PInf | NInf \<Rightarrow> NInf)"

text \<open>\<open>x || 0\<close>: zero and \<open>NaN\<close> are falsy.\<close>

definition or_zero :: "jsnum \<Rightarrow> jsnum" where
  "or_zero x = (case x of NaN \<Rightarrow> Num 0 | Num r \<Rightarrow> (if r = 0 then Num 0 else Num r) | PInf \<Rightarrow> PInf | NInf \<Rightarrow> NInf)"

text \<open>\<open>x >= n\<close> and \<open>x <= n\<close> against an integer; every comparison with \<open>NaN\<close> is false.\<close>

definition num_ge :: "jsnum \<Rightarrow> int \<Rightarrow> bool" where
  "num_ge x n = (case x of NaN \<Rightarrow> False | Num r \<Rightarrow> of_int n \<le> r | PInf \<Rightarrow> True | NInf \<Rightarrow> False)"

definition num_le :: "jsnum \<Rightarrow> int \<Rightarrow> bool" where
  "num_le x n = (case x of NaN \<Rightarrow> False | Num r \<Rightarrow> r \<le> of_int n | PInf \<Rightarrow> False | NInf \<Rightarrow> True)"

subsection \<open>\<open>CURSOR_POS_EXP\<close> and \<open>extractCursorPos\<close>\<close>

text \<open>
  \<open>query.match(CURSOR_POS_EXP)\<close> for the expression \<open>:([^,:]+)?([,:](.+)?)?\<close>. The match
  starts at the first \<open>:\<close> of the query (there is none without one). Every group is
  optional and greedy, and whatever follows a group may match the empty string, so no
  choice is ever undone: group 1 is the longest run of characters other than \<open>,\<close> and
  \<open>:\<close> (unmatched if that run is empty), group 2 begins at a following \<open>,\<close> or \<open>:\<close>,
  and group 3 is the longest run after it that holds no line terminator (\<open>.\<close> does not
  match one; unmatched if empty). The line terminators among the characters modelled are
  line feed and carriage return.
\<close>

record reg_info =
  whole :: string
  group1 :: "string option"
  group2 :: "string option"
  group3 :: "string option"

definition is_separator :: "char \<Rightarrow> bool" where
  "is_separator c = (c = CHR '','' \<or> c = CHR '':'')"

definition is_line_terminator :: "char \<Rightarrow> bool" where
  "is_line_terminator c = (c = CHR 0x0A \<or> c = CHR 0x0D)"

definition nonempty :: "string \<Rightarrow> string option" where
  "nonempty s = (if s = [] then None else Some s)"

definition match_CURSOR_POS_EXP :: "string \<Rightarrow> reg_info option" where
  "match_CURSOR_POS_EXP query =
     (case dropWhile (\<lambda>c. c \<noteq> CHR '':'') query of
        [] \<Rightarrow> None
      | colon # rest \<Rightarrow>
          (let g1 = takeWhile (\<lambda>c. \<not> is_separator c) rest
           in case dropWhile (\<lambda>c. \<not> is_separator c) rest of
                [] \<Rightarrow> Some \<lparr>whole = colon # g1, group1 = nonempty g1,
                             group2 = None, group3 = None\<rparr>
              | sep # rest' \<Rightarrow>
                  (let g3 = takeWhile (\<lambda>c. \<not> is_line_terminator c) rest'
                   in Some \<lparr>whole = colon # g1 @ sep # g3, group1 = nonempty g1,
                             group2 = Some (sep # g3), group3 = nonempty g3\<rparr>)))"

record cursor_pos =
  cp_query :: string
  cp_local :: bool
  cp_line :: jsnum
  cp_ch :: jsnum

definition extractCursorPos :: "(string \<Rightarrow> jsnum) \<Rightarrow> string \<Rightarrow> cursor_pos option" where
  "extractCursorPos other query =
     (let regInfo = match_CURSOR_POS_EXP query
      in case regInfo of
           None \<Rightarrow> None
         | Some ri \<Rightarrow>
             if length query \<le> 1 \<or>
                (group_truthy (group1 ri) \<and> isNaN other (group1 ri)) \<or>
                (group_truthy (group3 ri) \<and> isNaN other (group3 ri))
             then None
             else Some \<lparr>cp_query = whole ri,
                        cp_local = (take 1 query = '':''),
                        cp_line = or_zero (minus_one (group_number other (group1 ri))),
                        cp_ch = or_zero (minus_one (group_number other (group3 ri)))\<rparr>)"

subsection \<open>Objects of the module and of its surroundings\<close>

text \<open>
  \<open>StringMatcher\<close> objects and promises are identified by their position in the list that
  allocates them. A plain object used as a dictionary (\<open>_matchers = {}\<close>) answers a lookup
  with its own entry or, failing that, with whatever \<open>Object.prototype\<close> holds under
  that name; \<open>object_prototype_names\<close> lists the standard properties, all truthy.
\<close>

type_synonym addr = nat
type_synonym pid = nat

datatype js_error = TypeError

datatype 'o matcher_options = SegmentedSearch | Options "'o option"

datatype matcher_ref = StringMatcher addr | Inherited string

definition object_prototype_names :: "string list" where
  "object_prototype_names =
     [''constructor'', ''__defineGetter__'', ''__defineSetter__'', ''hasOwnProperty'',
      ''__lookupGetter__'', ''__lookupSetter__'', ''isPrototypeOf'',
      ''propertyIsEnumerable'', ''toString'', ''valueOf'', ''__proto__'',
      ''toLocaleString'']"

record file_info =
  file_fullPath :: string
  file_name :: string

text \<open>
  A \<open>SearchResult\<close>: what \<open>StringMatcher.match\<close> produced (match goodness, ranges), kept
  whole in \<open>sr_match\<close>, and the three fields this module attaches.
\<close>

record 'm search_result =
  sr_match :: 'm
  sr_label :: string
  sr_fullPath :: string
  sr_filenameWithoutExtension :: string

text \<open>
  A Quick Open plug-in. \<open>match\<close> and \<open>search\<close> are the plug-in's functions, read as
  functions of their arguments; \<open>plugin_done\<close> says whether \<open>done\<close> is defined.
\<close>

record ('o, 'r) plugin =
  plugin_name :: string
  plugin_match :: "string \<Rightarrow> bool"
  plugin_search :: "string \<Rightarrow> matcher_ref \<Rightarrow> 'r"
  plugin_done :: bool
  plugin_label :: "string option"
  plugin_matcherOptions :: "'o option"

record selection =
  sel_start :: "int \<times> int"
  sel_end :: "int \<times> int"
  sel_primary :: bool
  sel_reversed :: bool

record editor =
  ed_firstVisibleLine :: int
  ed_lastVisibleLine :: int
  ed_selections :: "selection list"
  ed_scrollPos :: "jsnum \<times> jsnum"

record document =
  doc_fullPath :: string
  doc_languageId :: string

datatype close_reason = CLOSE_ESCAPE | CLOSE_OTHER string

datatype 'm payload = Files "file_info list" | Results "'m search_result list" | NoValue

datatype 'm pstatus = Pending | Resolved "'m payload" | Rejected

text \<open>
  The \<open>done\<close> callbacks this module registers on promises: the one of \<open>showDialog\<close>
  (bound to the dialog, of which it uses \<open>_filenameMatcher\<close>), the one of
  \<open>searchFileList\<close> (query, matcher and the deferred \<open>asyncResult\<close>), and
  \<open>createDialog\<close> of \<open>beginSearch\<close> (prefix and initial string).
\<close>

datatype callback =
    FileListLoaded addr
  | SearchAgain string addr pid
  | CreateDialog "string option" "string option"

record 'm promise =
  status :: "'m pstatus"
  callbacks :: "callback list"

datatype label =
    PluginLabel string | CMD_GOTO_LINE | CMD_GOTO_DEFINITION | CMD_GOTO_DEFINITION_PROJECT
  | NoLabel

text \<open>
  Calls into the editor, the modal bar, the search field and the plug-ins, as made.
  \<open>EditorSetSelection line ch line'\<close> is \<open>setSelection({line, ch}, {line: line'}, true)\<close>,
  \<open>SearchFieldSetText text from to\<close> is \<open>setText(text)\<close> followed by
  \<open>setSelectionRange(from, to)\<close>, \<open>PluginDone name\<close> is the call of \<open>done()\<close> of the plug-in
  of that name, and \<open>MatcherReset\<close> is \<open>reset()\<close> on a \<open>StringMatcher\<close>.
\<close>

datatype effect =
    EditorSetSelection jsnum jsnum jsnum
  | EditorSetSelections "selection list"
  | EditorSetScrollPos jsnum jsnum
  | DialogLabel label
  | PluginDone string
  | SearchFieldDestroy
  | SearchFieldFocus
  | SearchFieldSetText string nat nat
  | ModalBarOpen
  | ModalBarClose
  | SpinnerHide
  | MatcherReset addr

text \<open>A \<open>QuickNavigateDialog\<close>.\<close>

record dialog =
  isOpen :: bool
  filenameMatcher :: addr
  matchers :: "string \<rightharpoonup> addr"
  closePromise :: "pid option"
  origDocPath :: "string option"
  origSelections :: "selection list option"
  origScrollPos :: "(jsnum \<times> jsnum) option"

text \<open>The module's variables, with the matchers and promises allocated so far.\<close>

record ('o, 'r, 'm) world =
  currentPlugin :: "('o, 'r) plugin option"
  fileList :: "file_info list option"
  fileListPromise :: "pid option"
  curDialog :: "dialog option"
  matcher_heap :: "'o matcher_options list"
  promises :: "'m promise list"

text \<open>
  What the surroundings answer when an operation asks: the current document and full
  editor, the providers registered for a language id (for all languages when called
  without one), the string matcher and project manager, the state of the promise that
  \<open>ProjectManager.getAllFiles\<close> hands out, and the reason and promise that the modal bar
  passes to its \<open>close\<close> handler when closed through \<open>close()\<close>.
\<close>

record ('o, 'r, 'm) env =
  toNumber_other :: "string \<Rightarrow> jsnum"
  getCurrentDocument :: "document option"
  getCurrentFullEditor :: "editor option"
  getProvidersForLanguageId :: "string option \<Rightarrow> ('o, 'r) plugin list"
  matcher_match :: "addr \<Rightarrow> string \<Rightarrow> string \<Rightarrow> 'm option"
  makeProjectRelativeIfPossible :: "string \<Rightarrow> string"
  multiFieldSort :: "(string \<times> nat) list \<Rightarrow> 'm search_result list \<Rightarrow> 'm search_result list"
  getAllFiles :: "'m pstatus"
  modalBar_close_reason :: close_reason
  modalBar_close_status :: "'m pstatus"

subsection \<open>\<open>_getPluginsForCurrentContext\<close>\<close>

definition getPluginsForCurrentContext :: "('o, 'r, 'm) env \<Rightarrow> ('o, 'r) plugin list" where
  "getPluginsForCurrentContext env =
     (case getCurrentDocument env of
        Some curDoc \<Rightarrow> getProvidersForLanguageId env (Some (doc_languageId curDoc))
      | None \<Rightarrow> getProvidersForLanguageId env None)"

subsection \<open>\<open>_doSearchFileList\<close> and \<open>searchFileList\<close>\<close>

text \<open>\<open>s.replace(pat, "")\<close> for a string pattern: the first occurrence of \<open>pat\<close> is removed.\<close>

fun remove_first :: "string \<Rightarrow> string \<Rightarrow> string" where
  "remove_first [] pat = []"
| "remove_first (c # s) pat =
     (if take (length pat) (c # s) = pat then drop (length pat) (c # s)
      else c # remove_first s pat)"

text \<open>
  \<open>$.map(list, f)\<close>: the values \<open>f\<close> returns that are neither \<open>null\<close> nor \<open>undefined\<close>, in
  order; nothing at all for a \<open>null\<close> list.
\<close>

definition jq_map :: "('a \<Rightarrow> 'b option) \<Rightarrow> 'a list option \<Rightarrow> 'b list" where
  "jq_map f xs = (case xs of None \<Rightarrow> [] | Some l \<Rightarrow> List.map_filter f l)"

definition sort_fields :: "(string \<times> nat) list" where
  "sort_fields =
     [(''matchGoodness'', 0), (''filenameWithoutExtension'', 1), (''label'', 2),
      (''fullPath'', 3)]"

definition strip_cursor_pos :: "(string \<Rightarrow> jsnum) \<Rightarrow> string \<Rightarrow> string" where
  "strip_cursor_pos other query =
     (case extractCursorPos other query of
        Some cursorPos \<Rightarrow>
          if \<not> cp_local cursorPos \<and> cp_query cursorPos \<noteq> []
          then remove_first query (cp_query cursorPos) else query
      | None \<Rightarrow> query)"

definition file_result ::
  "('o, 'r, 'm) env \<Rightarrow> addr \<Rightarrow> string \<Rightarrow> file_info \<Rightarrow> 'm search_result option" where
  "file_result env matcher query fileInfo =
     (case matcher_match env matcher
             (makeProjectRelativeIfPossible env (file_fullPath fileInfo)) query of
        Some searchResult \<Rightarrow>
          Some \<lparr>sr_match = searchResult,
                sr_label = file_name fileInfo,
                sr_fullPath = file_fullPath fileInfo,
                sr_filenameWithoutExtension = filenameFromPath (file_name fileInfo) False\<rparr>
      | None \<Rightarrow> None)"

definition doSearchFileList ::
  "('o, 'r, 'm) env \<Rightarrow> ('o, 'r, 'm) world \<Rightarrow> string \<Rightarrow> addr \<Rightarrow> 'm search_result list" where
  "doSearchFileList env w query matcher =
     (let query' = strip_cursor_pos (toNumber_other env) query;
          filteredList = jq_map (file_result env matcher query') (fileList w)
      in multiFieldSort env sort_fields filteredList)"

subsection \<open>Promises\<close>

definition new_promise :: "'m pstatus \<Rightarrow> ('o, 'r, 'm) world \<Rightarrow> pid \<times> ('o, 'r, 'm) world" where
  "new_promise st w =
     (length (promises w),
      w\<lparr>promises := promises w @ [\<lparr>status = st, callbacks = []\<rparr>]\<rparr>)"

text \<open>\<open>deferred.resolve(v)\<close> on a deferred whose callbacks are not this module's.\<close>

definition settle :: "pid \<Rightarrow> 'm payload \<Rightarrow> ('o, 'r, 'm) world \<Rightarrow> ('o, 'r, 'm) world" where
  "settle p v w =
     (if p < length (promises w) \<and> status (promises w ! p) = Pending
      then w\<lparr>promises := (promises w)[p := (promises w ! p)\<lparr>status := Resolved v\<rparr>]\<rparr>
      else w)"

definition add_callback :: "pid \<Rightarrow> callback \<Rightarrow> ('o, 'r, 'm) world \<Rightarrow> ('o, 'r, 'm) world" where
  "add_callback p cb w =
     (if p < length (promises w)
      then w\<lparr>promises :=
             (promises w)[p := (promises w ! p)\<lparr>callbacks := callbacks (promises w ! p) @ [cb]\<rparr>]\<rparr>
      else w)"

definition promise_status :: "('o, 'r, 'm) world \<Rightarrow> pid \<Rightarrow> 'm pstatus" where
  "promise_status w p = (if p < length (promises w) then status (promises w ! p) else Rejected)"

text \<open>
  \<open>promise.done(cb)\<close>: on a pending promise the callback is queued, on a resolved one it
  runs at once with the value, on a rejected one it never runs. \<open>run\<close> is the body of the
  callback and \<open>cb\<close> its description for the queue.
\<close>

definition done_with ::
  "('m payload \<Rightarrow> ('o, 'r, 'm) world \<Rightarrow> js_error + ('o, 'r, 'm) world \<times> effect list) \<Rightarrow>
   pid \<Rightarrow> callback \<Rightarrow> ('o, 'r, 'm) world \<Rightarrow> js_error + ('o, 'r, 'm) world \<times> effect list" where
  "done_with run p cb w =
     (case promise_status w p of
        Pending \<Rightarrow> Inr (add_callback p cb w, [])
      | Resolved v \<Rightarrow> run v w
      | Rejected \<Rightarrow> Inr (w, []))"

datatype ('r, 'm) result =
    ErrorNull
  | ResultList "'m search_result list"
  | PluginResult 'r
  | ResultPromise pid

text \<open>The callback of \<open>searchFileList\<close>: \<open>asyncResult.resolve(_doSearchFileList(query, matcher))\<close>.\<close>

definition searchAgain ::
  "('o, 'r, 'm) env \<Rightarrow> string \<Rightarrow> addr \<Rightarrow> pid \<Rightarrow> 'm payload \<Rightarrow> ('o, 'r, 'm) world \<Rightarrow>
   js_error + ('o, 'r, 'm) world \<times> effect list" where
  "searchAgain env query matcher asyncResult v w =
     Inr (settle asyncResult (Results (doSearchFileList env w query matcher)) w, [])"

definition searchFileList ::
  "('o, 'r, 'm) env \<Rightarrow> string \<Rightarrow> addr \<Rightarrow> ('o, 'r, 'm) world \<Rightarrow>
   js_error + ('r, 'm) result \<times> ('o, 'r, 'm) world" where
  "searchFileList env query matcher w =
     (case fileList w of
        None \<Rightarrow>
          (case fileListPromise w of
             None \<Rightarrow> Inl TypeError
           | Some p \<Rightarrow>
               (let (asyncResult, w1) = new_promise Pending w
                in case done_with (searchAgain env query matcher asyncResult) p
                          (SearchAgain query matcher asyncResult) w1 of
                     Inl e \<Rightarrow> Inl e
                   | Inr (w2, fx) \<Rightarrow> Inr (ResultPromise asyncResult, w2)))
      | Some files \<Rightarrow> Inr (ResultList (doSearchFileList env w query matcher), w))"

subsection \<open>The dialog\<close>

text \<open>The constructor: a fresh filename matcher and an empty \<open>_matchers\<close>.\<close>

definition new_dialog :: "('o, 'r, 'm) world \<Rightarrow> dialog \<times> ('o, 'r, 'm) world" where
  "new_dialog w =
     (\<lparr>isOpen = False, filenameMatcher = length (matcher_heap w), matchers = Map.empty,
       closePromise = None, origDocPath = None, origSelections = None,
       origScrollPos = None\<rparr>,
      w\<lparr>matcher_heap := matcher_heap w @ [SegmentedSearch]\<rparr>)"

definition setSearchFieldValue :: "string option \<Rightarrow> string option \<Rightarrow> effect" where
  "setSearchFieldValue prefix initialString =
     (let prefix' = (case prefix of None \<Rightarrow> [] | Some s \<Rightarrow> s);
          initialString' = prefix' @ (case initialString of None \<Rightarrow> [] | Some s \<Rightarrow> s)
      in SearchFieldSetText initialString' (length prefix') (length initialString'))"

definition updateDialogLabel :: "('o, 'r) plugin option \<Rightarrow> string \<Rightarrow> effect" where
  "updateDialogLabel plugin query =
     DialogLabel
       (case (case plugin of None \<Rightarrow> None | Some pl \<Rightarrow> plugin_label pl) of
          Some l \<Rightarrow>
            if l \<noteq> [] then PluginLabel l
            else (if take 1 query = '':'' then CMD_GOTO_LINE
                  else if take 1 query = ''@'' then CMD_GOTO_DEFINITION
                  else if take 1 query = ''#'' then CMD_GOTO_DEFINITION_PROJECT
                  else NoLabel)
        | None \<Rightarrow>
            (if take 1 query = '':'' then CMD_GOTO_LINE
             else if take 1 query = ''@'' then CMD_GOTO_DEFINITION
             else if take 1 query = ''#'' then CMD_GOTO_DEFINITION_PROJECT
             else NoLabel))"

text \<open>The callback of \<open>showDialog\<close> on the file list promise.\<close>

definition fileListLoaded ::
  "addr \<Rightarrow> 'm payload \<Rightarrow> ('o, 'r, 'm) world \<Rightarrow> js_error + ('o, 'r, 'm) world \<times> effect list" where
  "fileListLoaded matcher v w =
     Inr (w\<lparr>fileList := (case v of Files files \<Rightarrow> Some files | _ \<Rightarrow> None),
            fileListPromise := None\<rparr>,
          [SpinnerHide, MatcherReset matcher])"

definition showDialog ::
  "('o, 'r, 'm) env \<Rightarrow> string option \<Rightarrow> string option \<Rightarrow> dialog \<Rightarrow> ('o, 'r, 'm) world \<Rightarrow>
   js_error + dialog \<times> ('o, 'r, 'm) world \<times> effect list" where
  "showDialog env prefix initialString d w =
     (if isOpen d then Inr (d, w, [])
      else
        (case (case getCurrentDocument env of
                 None \<Rightarrow> Inr (None, None, None)
               | Some curDoc \<Rightarrow>
                   (case getCurrentFullEditor env of
                      None \<Rightarrow> Inl TypeError
                    | Some ed \<Rightarrow>
                        Inr (Some (doc_fullPath curDoc), Some (ed_selections ed),
                             Some (ed_scrollPos ed)))) of
           Inl e \<Rightarrow> Inl e
         | Inr (path, sels, scroll) \<Rightarrow>
             (let d1 = d\<lparr>isOpen := True, origDocPath := path, origSelections := sels,
                         origScrollPos := scroll\<rparr>;
                  (p, w1) = new_promise (getAllFiles env) w
              in case done_with (fileListLoaded (filenameMatcher d1)) p
                        (FileListLoaded (filenameMatcher d1)) w1 of
                   Inl e \<Rightarrow> Inl e
                 | Inr (w2, fx) \<Rightarrow>
                     Inr (d1, w2\<lparr>fileListPromise := Some p\<rparr>,
                          [ModalBarOpen] @ fx @
                          [SearchFieldFocus, setSearchFieldValue prefix initialString]))))"

definition handleCloseBar ::
  "('o, 'r, 'm) env \<Rightarrow> close_reason \<Rightarrow> pid \<Rightarrow> dialog \<Rightarrow> dialog \<times> effect list" where
  "handleCloseBar env reason modalBarClosePromise d =
     (let d1 = d\<lparr>closePromise := Some modalBarClosePromise, isOpen := False\<rparr>;
          plugins = getPluginsForCurrentContext env;
          dones = map (\<lambda>plugin. PluginDone (plugin_name plugin)) (filter plugin_done plugins);
          restore =
            (if reason = CLOSE_ESCAPE
             then (case getCurrentFullEditor env of
                     None \<Rightarrow> []
                   | Some editor \<Rightarrow>
                       (case origSelections d1 of
                          None \<Rightarrow> [] | Some sels \<Rightarrow> [EditorSetSelections sels]) @
                       (case origScrollPos d1 of
                          None \<Rightarrow> [] | Some (x, y) \<Rightarrow> [EditorSetScrollPos x y]))
             else [])
      in (d1, dones @ [SearchFieldDestroy] @ restore))"

text \<open>
  \<open>close()\<close>. \<open>modalBar.close()\<close> fires the bar's \<open>close\<close> event, whose handler is
  \<open>_handleCloseBar\<close>, with the reason and the promise of the bar.
\<close>

definition close ::
  "('o, 'r, 'm) env \<Rightarrow> dialog \<Rightarrow> ('o, 'r, 'm) world \<Rightarrow>
   pid option \<times> dialog \<times> ('o, 'r, 'm) world \<times> effect list" where
  "close env d w =
     (if \<not> isOpen d then (closePromise d, d, w, [])
      else
        (let (p, w1) = new_promise (modalBar_close_status env) w;
             (d1, fx) = handleCloseBar env (modalBar_close_reason env) p d
         in (closePromise d1, d1, w1, ModalBarClose # fx)))"

text \<open>The lookup \<open>this._matchers[name]\<close>, with what the prototype answers.\<close>

definition lookup_matcher :: "(string \<rightharpoonup> addr) \<Rightarrow> string \<Rightarrow> matcher_ref option" where
  "lookup_matcher ms name =
     (case ms name of
        Some a \<Rightarrow> Some (StringMatcher a)
      | None \<Rightarrow> if name \<in> set object_prototype_names then Some (Inherited name) else None)"

definition is_goto_line :: "(string \<Rightarrow> jsnum) \<Rightarrow> string \<Rightarrow> bool" where
  "is_goto_line other query =
     (case extractCursorPos other query of Some cursorPos \<Rightarrow> cp_local cursorPos | None \<Rightarrow> False)"

definition filterCallback ::
  "('o, 'r, 'm) env \<Rightarrow> string \<Rightarrow> dialog \<Rightarrow> ('o, 'r, 'm) world \<Rightarrow>
   js_error + ('r, 'm) result \<times> dialog \<times> ('o, 'r, 'm) world \<times> effect list" where
  "filterCallback env query d w =
     (let w0 = w\<lparr>currentPlugin := None\<rparr>;
          cursorPos = extractCursorPos (toNumber_other env) query
      in if is_goto_line (toNumber_other env) query then
           (case (cursorPos, getCurrentFullEditor env) of
              (Some cp, Some editor) \<Rightarrow>
                if num_ge (cp_line cp) (ed_firstVisibleLine editor) \<and>
                   num_le (cp_line cp) (ed_lastVisibleLine editor)
                then Inr (ErrorNull, d, w0,
                          [EditorSetSelection (cp_line cp) (cp_ch cp) (cp_line cp)])
                else Inr (ResultList [], d, w0, [])
            | _ \<Rightarrow> Inr (ResultList [], d, w0, []))
         else if query = '':'' then Inr (ErrorNull, d, w0, [])
         else
           (case find (\<lambda>plugin. plugin_match plugin query) (getPluginsForCurrentContext env) of
              Some plugin \<Rightarrow>
                (let w1 = w0\<lparr>currentPlugin := Some plugin\<rparr>;
                     (matcher, d1, w2) =
                       (case lookup_matcher (matchers d) (plugin_name plugin) of
                          Some m \<Rightarrow> (m, d, w1)
                        | None \<Rightarrow>
                            (StringMatcher (length (matcher_heap w1)),
                             d\<lparr>matchers :=
                                 (matchers d)(plugin_name plugin \<mapsto> length (matcher_heap w1))\<rparr>,
                             w1\<lparr>matcher_heap :=
                                  matcher_heap w1 @ [Options (plugin_matcherOptions plugin)]\<rparr>))
                 in Inr (PluginResult (plugin_search plugin query matcher), d1, w2,
                         [updateDialogLabel (Some plugin) query]))
            | None \<Rightarrow>
                (case searchFileList env query (filenameMatcher d) w0 of
                   Inl e \<Rightarrow> Inl e
                 | Inr (res, w1) \<Rightarrow>
                     Inr (res, d, w1,
                          [updateDialogLabel (None :: ('o, 'r) plugin option) query]))))"

subsection \<open>\<open>beginSearch\<close> and the handlers of the module\<close>

definition createDialog ::
  "('o, 'r, 'm) env \<Rightarrow> string option \<Rightarrow> string option \<Rightarrow> ('o, 'r, 'm) world \<Rightarrow>
   js_error + ('o, 'r, 'm) world \<times> effect list" where
  "createDialog env prefix initialString w =
     (let (d, w1) = new_dialog w
      in case showDialog env prefix initialString d w1 of
           Inl e \<Rightarrow> Inl e
         | Inr (d1, w2, fx) \<Rightarrow> Inr (w2\<lparr>curDialog := Some d1\<rparr>, fx))"

definition beginSearch ::
  "('o, 'r, 'm) env \<Rightarrow> string option \<Rightarrow> string option \<Rightarrow> ('o, 'r, 'm) world \<Rightarrow>
   js_error + ('o, 'r, 'm) world \<times> effect list" where
  "beginSearch env prefix initialString w =
     (case curDialog w of
        Some d \<Rightarrow>
          if isOpen d then Inr (w, [setSearchFieldValue prefix initialString])
          else
            (case close env d w of
               (None, d1, w1, fx) \<Rightarrow> Inl TypeError
             | (Some p, d1, w1, fx) \<Rightarrow>
                 (case done_with (\<lambda>v. createDialog env prefix initialString) p
                         (CreateDialog prefix initialString) (w1\<lparr>curDialog := Some d1\<rparr>) of
                    Inl e \<Rightarrow> Inl e
                  | Inr (w2, fx2) \<Rightarrow> Inr (w2, fx @ fx2)))
      | None \<Rightarrow> createDialog env prefix initialString w)"

text \<open>
  The variables as the module leaves them when it has loaded: \<open>currentPlugin\<close> is
  \<open>null\<close>, the others are \<open>undefined\<close>, and nothing has been allocated.
\<close>

definition initial_world :: "('o, 'r, 'm) world" where
  "initial_world =
     \<lparr>currentPlugin = None, fileList = None, fileListPromise = None, curDialog = None,
      matcher_heap = [], promises = []\<rparr>"

text \<open>The handler of \<open>projectOpen\<close>.\<close>

definition projectOpen :: "('o, 'r, 'm) world \<Rightarrow> ('o, 'r, 'm) world" where
  "projectOpen w = w\<lparr>fileList := None\<rparr>"

text \<open>
  A promise of the surroundings resolves: its callbacks run in the order in which they
  were registered.
\<close>

definition run_callback ::
  "('o, 'r, 'm) env \<Rightarrow> 'm payload \<Rightarrow> callback \<Rightarrow> ('o, 'r, 'm) world \<Rightarrow>
   js_error + ('o, 'r, 'm) world \<times> effect list" where
  "run_callback env v cb w =
     (case cb of
        FileListLoaded matcher \<Rightarrow> fileListLoaded matcher v w
      | SearchAgain query matcher asyncResult \<Rightarrow> searchAgain env query matcher asyncResult v w
      | CreateDialog prefix initialString \<Rightarrow> createDialog env prefix initialString w)"

fun run_callbacks ::
  "('o, 'r, 'm) env \<Rightarrow> 'm payload \<Rightarrow> callback list \<Rightarrow> ('o, 'r, 'm) world \<Rightarrow>
   js_error + ('o, 'r, 'm) world \<times> effect list" where
  "run_callbacks env v [] w = Inr (w, [])"
| "run_callbacks env v (cb # cbs) w =
     (case run_callback env v cb w of
        Inl e \<Rightarrow> Inl e
      | Inr (w1, fx1) \<Rightarrow>
          (case run_callbacks env v cbs w1 of
             Inl e \<Rightarrow> Inl e
           | Inr (w2, fx2) \<Rightarrow> Inr (w2, fx1 @ fx2)))"

definition resolve_promise ::
  "('o, 'r, 'm) env \<Rightarrow> pid \<Rightarrow> 'm payload \<Rightarrow> ('o, 'r, 'm) world \<Rightarrow>
   js_error + ('o, 'r, 'm) world \<times> effect list" where
  "resolve_promise env p v w =
     (if promise_status w p = Pending
      then run_callbacks env v (callbacks (promises w ! p))
             (w\<lparr>promises := (promises w)[p := \<lparr>status = Resolved v, callbacks = []\<rparr>]\<rparr>)
      else Inr (w, []))"

subsection \<open>Sequences of queries\<close>

text \<open>
  The search field calls \<open>_filterCallback\<close> whenever the query changes; \<open>filterCallbacks\<close>
  runs it for a sequence of queries, each with the surroundings of its moment.
  \<open>dispatches\<close> is the condition under which the loop over the plug-ins hands the query to
  \<open>plugin\<close>.
\<close>

fun filterCallbacks ::
  "(('o, 'r, 'm) env \<times> string) list \<Rightarrow> dialog \<Rightarrow> ('o, 'r, 'm) world \<Rightarrow>
   js_error + dialog \<times> ('o, 'r, 'm) world" where
  "filterCallbacks [] d w = Inr (d, w)"
| "filterCallbacks ((env, query) # steps) d w =
     (case filterCallback env query d w of
        Inl e \<Rightarrow> Inl e
      | Inr (res, d1, w1, fx) \<Rightarrow> filterCallbacks steps d1 w1)"

definition dispatches :: "('o, 'r, 'm) env \<Rightarrow> string \<Rightarrow> ('o, 'r) plugin \<Rightarrow> bool" where
  "dispatches env query plugin =
     (\<not> is_goto_line (toNumber_other env) query \<and> query \<noteq> '':'' \<and>
      find (\<lambda>plugin. plugin_match plugin query) (getPluginsForCurrentContext env) =
        Some plugin)"

subsection \<open>Waiting for the file list\<close>

text \<open>
  \<open>awaiting_files w p\<close>: the file list is empty and \<open>fileListPromise\<close> is the pending
  promise \<open>p\<close>, on which the callback of \<open>showDialog\<close> was registered first and after it
  only callbacks of \<open>searchFileList\<close>, each for a deferred allocated before. This is the
  state \<open>showDialog\<close> leaves when the list has yet to load, and \<open>searchFileList\<close> keeps.
\<close>

definition search_callback :: "nat \<Rightarrow> callback \<Rightarrow> bool" where
  "search_callback n cb =
     (case cb of SearchAgain query matcher asyncResult \<Rightarrow> asyncResult < n | _ \<Rightarrow> False)"

definition awaiting_files :: "('o, 'r, 'm) world \<Rightarrow> pid \<Rightarrow> bool" where
  "awaiting_files w p =
     (fileList w = None \<and> fileListPromise w = Some p \<and> p < length (promises w) \<and>
      status (promises w ! p) = Pending \<and>
      (case callbacks (promises w ! p) of
         FileListLoaded matcher # cbs \<Rightarrow> list_all (search_callback (length (promises w))) cbs
       | _ \<Rightarrow> False))"

subsection \<open>A small instance\<close>

text \<open>
  One plug-in that takes the queries beginning with \<open>@\<close>, a JavaScript document shown in
  an editor with lines 0 to 40 visible, a matcher that accepts the paths beginning with
  the query, and a sort that leaves the list as it is.
\<close>

definition sample_plugin :: "(unit, string list) plugin" where
  "sample_plugin =
     \<lparr>plugin_name = ''symbols'', plugin_match = (\<lambda>q. take 1 q = ''@''),
      plugin_search = (\<lambda>q m. [q]), plugin_done = True, plugin_label = None,
      plugin_matcherOptions = None\<rparr>"

definition sample_editor :: editor where
  "sample_editor =
     \<lparr>ed_firstVisibleLine = 0, ed_lastVisibleLine = 40,
      ed_selections = [\<lparr>sel_start = (2, 0), sel_end = (2, 5), sel_primary = True,
                         sel_reversed = False\<rparr>],
      ed_scrollPos = (Num 0, Num 120)\<rparr>"

definition sample_env :: "(unit, string list, nat) env" where
  "sample_env =
     \<lparr>toNumber_other = (\<lambda>s. NaN),
      getCurrentDocument =
        Some \<lparr>doc_fullPath = ''/p/main.js'', doc_languageId = ''javascript''\<rparr>,
      getCurrentFullEditor = Some sample_editor,
      getProvidersForLanguageId =
        (\<lambda>languageId. if languageId = Some ''javascript'' then [sample_plugin] else []),
      matcher_match =
        (\<lambda>matcher str query.
           if take (length query) str = query then Some (length str) else None),
      makeProjectRelativeIfPossible =
        (\<lambda>path. if take 3 path = ''/p/'' then drop 3 path else path),
      multiFieldSort = (\<lambda>fields results. results),
      getAllFiles = Pending,
      modalBar_close_reason = CLOSE_OTHER ''api'',
      modalBar_close_status = Pending\<rparr>"

definition sample_dialog :: dialog where
  "sample_dialog =
     \<lparr>isOpen = True, filenameMatcher = 0, matchers = Map.empty, closePromise = None,
      origDocPath = Some ''/p/main.js'',
      origSelections = Some (ed_selections sample_editor),
      origScrollPos = Some (ed_scrollPos sample_editor)\<rparr>"

definition sample_world :: "(unit, string list, nat) world" where
  "sample_world =
     \<lparr>currentPlugin = None,
      fileList = Some [\<lparr>file_fullPath = ''/p/main.js'', file_name = ''main.js''\<rparr>,
                       \<lparr>file_fullPath = ''/p/README'', file_name = ''README''\<rparr>],
      fileListPromise = None, curDialog = Some sample_dialog,
      matcher_heap = [SegmentedSearch], promises = []\<rparr>"

definition sample_files :: "file_info list" where
  "sample_files =
     [\<lparr>file_fullPath = ''/p/main.js'', file_name = ''main.js''\<rparr>,
      \<lparr>file_fullPath = ''/p/README'', file_name = ''README''\<rparr>]"

definition sample_loading :: "(unit, string list, nat) world" where
  "sample_loading =
     \<lparr>currentPlugin = None, fileList = None, fileListPromise = Some 0,
      curDialog = Some sample_dialog, matcher_heap = [SegmentedSearch],
      promises = [\<lparr>status = Pending, callbacks = [FileListLoaded 0]\<rparr>]\<rparr>"

text \<open>
  A plug-in whose name is a property of \<open>Object.prototype\<close> and whose \<open>search\<close> returns
  the matcher it is given, with surroundings that offer it for every language.
\<close>

definition constructor_plugin :: "(unit, matcher_ref) plugin" where
  "constructor_plugin =
     \<lparr>plugin_name = ''constructor'', plugin_match = (\<lambda>q. take 1 q = ''@''),
      plugin_search = (\<lambda>q m. m), plugin_done = False, plugin_label = None,
      plugin_matcherOptions = None\<rparr>"

definition constructor_env :: "(unit, matcher_ref, nat) env" where
  "constructor_env =
     \<lparr>toNumber_other = (\<lambda>s. NaN),
      getCurrentDocument = None,
      getCurrentFullEditor = None,
      getProvidersForLanguageId = (\<lambda>languageId. [constructor_plugin]),
      matcher_match = (\<lambda>matcher str query. None),
      makeProjectRelativeIfPossible = (\<lambda>path. path),
      multiFieldSort = (\<lambda>fields results. results),
      getAllFiles = Pending,
      modalBar_close_reason = CLOSE_OTHER ''api'',
      modalBar_close_status = Pending\<rparr>"

subsection \<open>The handler of \<open>currentFileChange\<close>\<close>

text \<open>
  The handler enables or disables two commands and asks the document manager for the
  documents of the new and of the old file. Each request is a promise; \<open>load\<close> says how it
  settles, if it does. The result keeps apart what the handler does before it returns and
  what the callbacks on either promise do when that promise settles, whichever settles
  first. The listener that the handler installs on the new document is recorded as
  installed; its later runs are not part of the handler.
\<close>

datatype command = NAVIGATE_GOTO_DEFINITION | NAVIGATE_GOTO_DEFINITION_PROJECT

datatype 'e load = Loaded | Failed 'e | Unsettled

datatype 'e handler_effect =
    SetEnabled command bool
  | DocOff string
  | DocOn string
  | ConsoleError 'e

record ('o, 'r, 'e) file_env =
  language_id :: "string \<Rightarrow> string"
  language_isBinary :: "string \<Rightarrow> bool"
  providers_for :: "string \<Rightarrow> ('o, 'r) plugin list"
  getDocumentForPath :: "string \<Rightarrow> 'e load"
  UNSUPPORTED_ENCODING :: 'e

record 'e file_change =
  fc_handler :: "'e handler_effect list"
  fc_newDoc :: "'e handler_effect list"
  fc_oldDoc :: "'e handler_effect list"

definition canHandleTrigger :: "string \<Rightarrow> ('o, 'r) plugin list \<Rightarrow> bool" where
  "canHandleTrigger trigger plugins = list_ex (\<lambda>plugin. plugin_match plugin trigger) plugins"

definition setMenuItemStateForLanguage ::
  "('o, 'r, 'e) file_env \<Rightarrow> string \<Rightarrow> 'e handler_effect list" where
  "setMenuItemStateForLanguage fenv languageId =
     (let plugins = providers_for fenv languageId
      in [SetEnabled NAVIGATE_GOTO_DEFINITION (canHandleTrigger ''@'' plugins),
          SetEnabled NAVIGATE_GOTO_DEFINITION_PROJECT (canHandleTrigger ''#'' plugins)])"

definition currentFileChange ::
  "('o, 'r, 'e) file_env \<Rightarrow> string option \<Rightarrow> string option \<Rightarrow> 'e file_change" where
  "currentFileChange fenv newFile oldFile =
     (case newFile of
        None \<Rightarrow>
          \<lparr>fc_handler = [SetEnabled NAVIGATE_GOTO_DEFINITION False,
                         SetEnabled NAVIGATE_GOTO_DEFINITION_PROJECT False],
           fc_newDoc = [], fc_oldDoc = []\<rparr>
      | Some newFilePath \<Rightarrow>
          if language_isBinary fenv newFilePath
          then \<lparr>fc_handler = [SetEnabled NAVIGATE_GOTO_DEFINITION False,
                              SetEnabled NAVIGATE_GOTO_DEFINITION_PROJECT False],
                fc_newDoc = [], fc_oldDoc = []\<rparr>
          else
            \<lparr>fc_handler = setMenuItemStateForLanguage fenv (language_id fenv newFilePath),
             fc_newDoc =
               (case getDocumentForPath fenv newFilePath of
                  Loaded \<Rightarrow> [DocOff newFilePath, DocOn newFilePath]
                | Failed err \<Rightarrow> [ConsoleError err]
                | Unsettled \<Rightarrow> []),
             fc_oldDoc =
               (case oldFile of
                  None \<Rightarrow> []
                | Some oldFilePath \<Rightarrow>
                    (case getDocumentForPath fenv oldFilePath of
                       Loaded \<Rightarrow> [DocOff oldFilePath]
                     | Failed err \<Rightarrow>
                         if err \<noteq> UNSUPPORTED_ENCODING fenv then [ConsoleError err] else []
                     | Unsettled \<Rightarrow> []))\<rparr>)"

definition sample_file_env :: "(unit, string list, string) file_env" where
  "sample_file_env =
     \<lparr>language_id = (\<lambda>path. ''javascript''),
      language_isBinary = (\<lambda>path. False),
      providers_for = (\<lambda>languageId. [sample_plugin]),
      getDocumentForPath =
        (\<lambda>path. if path = ''/p/old.bin'' then Failed ''UnsupportedEncoding''
                else if path = ''/p/gone.js'' then Failed ''NotFound'' else Loaded),
      UNSUPPORTED_ENCODING = ''UnsupportedEncoding''\<rparr>"

lemma length_takeWhile_neq:
  "c \<in> set xs \<Longrightarrow> length (takeWhile (\<lambda>x. x \<noteq> c) xs) < length xs"
  by (induction xs) auto

lemma lastIndexOf_range: "- 1 \<le> lastIndexOf s c \<and> lastIndexOf s c < int (length s)"
proof (cases "c \<in> set s")
  case True
  then have "length (takeWhile (\<lambda>x. x \<noteq> c) (rev s)) < length (rev s)"
    by (intro length_takeWhile_neq) simp
  then show ?thesis using True by (simp add: lastIndexOf_def)
next
  case False
  then show ?thesis by (simp add: lastIndexOf_def)
qed

lemma drop_after_last:
  "drop (nat (lastIndexOf s c + 1)) s = after_last c s"
proof (cases "c \<in> set s")
  case False
  then have "takeWhile (\<lambda>x. x \<noteq> c) (rev s) = rev s"
    by auto
  then have "after_last c s = s"
    unfolding after_last_def by (simp only: rev_rev_ident)
  moreover have "lastIndexOf s c = - 1"
    using False by (simp add: lastIndexOf_def)
  ultimately show ?thesis by simp
next
  case True
  let ?t = "takeWhile (\<lambda>x. x \<noteq> c) (rev s)"
  let ?d = "dropWhile (\<lambda>x. x \<noteq> c) (rev s)"
  have lt: "length ?t < length s"
    using length_takeWhile_neq [of c "rev s"] True by simp
  have "rev (?t @ ?d) = s" by simp
  then have s: "s = rev ?d @ rev ?t" by (simp only: rev_append)
  have "length ?t + length ?d = length (rev s)"
    by (simp only: length_append [symmetric] takeWhile_dropWhile_id)
  then have len: "length (rev ?d) = length s - length ?t"
    by simp
  have "drop (length (rev ?d)) (rev ?d @ rev ?t) = rev ?t" by simp
  then have "drop (length s - length ?t) s = rev ?t"
    using s len by simp
  moreover have "nat (lastIndexOf s c + 1) = length s - length ?t"
    using True lt by (simp add: lastIndexOf_def)
  ultimately show ?thesis by (simp add: after_last_def)
qed

lemma lastIndexOf_absent: "c \<notin> set s \<Longrightarrow> lastIndexOf s c = - 1"
  by (simp add: lastIndexOf_def)

lemma lastIndexOf_present: "c \<in> set s \<Longrightarrow> 0 \<le> lastIndexOf s c"
  using length_takeWhile_neq [of c "rev s"] by (simp add: lastIndexOf_def)

lemma clamp_index_in: "0 \<le> i \<Longrightarrow> i \<le> int n \<Longrightarrow> clamp_index n i = nat i"
  by (auto simp: clamp_index_def min_def)

lemma slice_from_slash:
  assumes "0 \<le> e" and "e \<le> int (length path)"
  shows "slice path (lastIndexOf path (CHR ''/'') + 1) e =
         take (nat e - nat (lastIndexOf path (CHR ''/'') + 1)) (after_last (CHR ''/'') path)"
proof -
  let ?l = "lastIndexOf path (CHR ''/'')"
  have r: "- 1 \<le> ?l \<and> ?l < int (length path)" by (rule lastIndexOf_range)
  have lo: "clamp_index (length path) (?l + 1) = nat (?l + 1)"
    using r by (intro clamp_index_in) auto
  have hi: "clamp_index (length path) e = nat e"
    using assms by (intro clamp_index_in) auto
  show ?thesis
    by (simp only: slice_def Let_def lo hi drop_after_last)
qed

subsection \<open>C9: what \<open>_filenameFromPath\<close> returns\<close>

text \<open>
  C9. With \<open>includeExtension\<close> true, \<open>_filenameFromPath\<close> returns the part of the path
  after its final \<open>/\<close>. With \<open>includeExtension\<close> false the end of the slice is the index
  of the last \<open>.\<close> of the whole path (the end of the path if it has none), so a path whose
  last \<open>.\<close> comes before its last \<open>/\<close> yields the empty string and not the file name.
\<close>

theorem filenameFromPath_result:
  "filenameFromPath path True = after_last (CHR ''/'') path \<and>
   (CHR ''.'' \<notin> set path \<longrightarrow>
      filenameFromPath path False = after_last (CHR ''/'') path) \<and>
   (CHR ''.'' \<in> set path \<longrightarrow>
      filenameFromPath path False =
        take (nat (lastIndexOf path (CHR ''.'')) - nat (lastIndexOf path (CHR ''/'') + 1))
          (after_last (CHR ''/'') path)) \<and>
   (CHR ''.'' \<in> set path \<and> lastIndexOf path (CHR ''.'') < lastIndexOf path (CHR ''/'') \<longrightarrow>
      filenameFromPath path False = [])"
proof -
  let ?s = "lastIndexOf path (CHR ''/'')"
  let ?d = "lastIndexOf path (CHR ''.'')"
  have len: "length (after_last (CHR ''/'') path) = length path - nat (?s + 1)"
    by (simp only: drop_after_last [symmetric] length_drop)
  have full: "slice path (?s + 1) (int (length path)) = after_last (CHR ''/'') path"
    using len by (simp add: slice_from_slash)
  have incl: "filenameFromPath path True = after_last (CHR ''/'') path"
    using full by (simp add: filenameFromPath_def)
  have nodot: "filenameFromPath path False = after_last (CHR ''/'') path"
    if "CHR ''.'' \<notin> set path"
    using full lastIndexOf_absent [OF that] by (simp add: filenameFromPath_def)
  have dot: "filenameFromPath path False =
      take (nat ?d - nat (?s + 1)) (after_last (CHR ''/'') path)"
    if "CHR ''.'' \<in> set path"
  proof -
    have "0 \<le> ?d" by (rule lastIndexOf_present [OF that])
    moreover have "?d \<le> int (length path)"
      using lastIndexOf_range [of path "CHR ''.''"] by simp
    ultimately have "slice path (?s + 1) ?d =
        take (nat ?d - nat (?s + 1)) (after_last (CHR ''/'') path)"
      by (rule slice_from_slash)
    moreover have "?d \<noteq> - 1" using \<open>0 \<le> ?d\<close> by simp
    ultimately show ?thesis by (simp add: filenameFromPath_def)
  qed
  have before: "filenameFromPath path False = []"
    if "CHR ''.'' \<in> set path" and "?d < ?s"
    using dot [OF that(1)] that(2) by simp
  show ?thesis using incl nodot dot before by blast
qed

theorem filenameFromPath_result_witness:
  "filenameFromPath ''dir.name/README'' True = ''README'' \<and>
   filenameFromPath ''dir.name/README'' False = [] \<and>
   filenameFromPath ''src/main.js'' False = ''main'' \<and>
   filenameFromPath ''src/Makefile'' False = ''Makefile''"
  using filenameFromPath_result [of "''dir.name/README''"]
    filenameFromPath_result [of "''src/main.js''"]
    filenameFromPath_result [of "''src/Makefile''"]
  by (simp add: lastIndexOf_def after_last_def)

subsection \<open>C1: go to line\<close>

lemma digit_plain:
  "is_digit c \<Longrightarrow> \<not> is_separator c \<and> \<not> is_line_terminator c \<and> c \<noteq> CHR '':''"
  by (auto simp: is_digit_def is_separator_def is_line_terminator_def)

lemma digits_takeWhile_sep:
  "list_all is_digit ds \<Longrightarrow>
   takeWhile (\<lambda>c. \<not> is_separator c) (ds @ xs) = ds @ takeWhile (\<lambda>c. \<not> is_separator c) xs"
  by (rule takeWhile_append2) (simp add: list_all_iff digit_plain)

lemma digits_dropWhile_sep:
  "list_all is_digit ds \<Longrightarrow>
   dropWhile (\<lambda>c. \<not> is_separator c) (ds @ xs) = dropWhile (\<lambda>c. \<not> is_separator c) xs"
  by (rule dropWhile_append2) (simp add: list_all_iff digit_plain)

lemma digits_takeWhile_line:
  "list_all is_digit ds \<Longrightarrow> takeWhile (\<lambda>c. \<not> is_line_terminator c) ds = ds"
  by (simp add: takeWhile_eq_all_conv list_all_iff digit_plain)

lemma digits_takeWhile_sep0:
  "list_all is_digit ds \<Longrightarrow> takeWhile (\<lambda>c. \<not> is_separator c) ds = ds"
  by (simp add: list_all_iff digit_plain)

lemma digits_dropWhile_sep0:
  "list_all is_digit ds \<Longrightarrow> dropWhile (\<lambda>c. \<not> is_separator c) ds = []"
  by (simp add: list_all_iff digit_plain)

lemma match_line_only:
  assumes "list_all is_digit ds"
  shows "match_CURSOR_POS_EXP (CHR '':'' # ds) =
         Some \<lparr>whole = CHR '':'' # ds, group1 = nonempty ds, group2 = None, group3 = None\<rparr>"
  by (simp add: match_CURSOR_POS_EXP_def Let_def digits_takeWhile_sep0 [OF assms]
      digits_dropWhile_sep0 [OF assms])

lemma match_line_column:
  assumes "list_all is_digit ds" and "is_separator s" and "list_all is_digit cs"
  shows "match_CURSOR_POS_EXP (CHR '':'' # ds @ s # cs) =
         Some \<lparr>whole = CHR '':'' # ds @ s # cs, group1 = nonempty ds,
               group2 = Some (s # cs), group3 = nonempty cs\<rparr>"
  by (simp add: match_CURSOR_POS_EXP_def Let_def digits_takeWhile_sep [OF assms(1)]
      digits_dropWhile_sep [OF assms(1)] assms(2) digits_takeWhile_line [OF assms(3)])

lemma numeral_number:
  "decimal_numeral ds \<Longrightarrow>
   group_number other (nonempty ds) = Num (of_int (dec_value ds)) \<and>
   group_truthy (nonempty ds) \<and> \<not> isNaN other (nonempty ds)"
  by (simp add: decimal_numeral_def nonempty_def group_number_def ToNumber_def
      group_truthy_def isNaN_def)

lemma or_zero_Num: "or_zero (minus_one (Num r)) = Num (r - 1)"
  by (simp add: or_zero_def minus_one_def)

lemma or_zero_undefined: "or_zero (minus_one (group_number other None)) = Num 0"
  by (simp add: or_zero_def minus_one_def group_number_def)

lemma extract_line_only:
  assumes "decimal_numeral ds"
  shows "extractCursorPos other (CHR '':'' # ds) =
         Some \<lparr>cp_query = CHR '':'' # ds, cp_local = True,
               cp_line = Num (of_int (dec_value ds) - 1), cp_ch = Num 0\<rparr>"
proof -
  have ds: "list_all is_digit ds" "ds \<noteq> []"
    using assms by (simp_all add: decimal_numeral_def)
  show ?thesis
    using numeral_number [OF assms, of other] ds(2)
    by (simp add: extractCursorPos_def match_line_only [OF ds(1)] or_zero_Num
        or_zero_undefined group_truthy_def)
qed

lemma extract_line_sep:
  assumes "decimal_numeral ds" and "is_separator s"
  shows "extractCursorPos other (CHR '':'' # ds @ [s]) =
         Some \<lparr>cp_query = CHR '':'' # ds @ [s], cp_local = True,
               cp_line = Num (of_int (dec_value ds) - 1), cp_ch = Num 0\<rparr>"
proof -
  have ds: "list_all is_digit ds" "ds \<noteq> []"
    using assms by (simp_all add: decimal_numeral_def)
  show ?thesis
    using numeral_number [OF assms(1), of other] ds(2)
      match_line_column [OF ds(1) assms(2), of "[]"]
    by (simp add: extractCursorPos_def or_zero_Num nonempty_def
        or_zero_undefined group_truthy_def)
qed

lemma extract_line_column:
  assumes "decimal_numeral ds" and "is_separator s" and "decimal_numeral cs"
  shows "extractCursorPos other (CHR '':'' # ds @ s # cs) =
         Some \<lparr>cp_query = CHR '':'' # ds @ s # cs, cp_local = True,
               cp_line = Num (of_int (dec_value ds) - 1),
               cp_ch = Num (of_int (dec_value cs) - 1)\<rparr>"
proof -
  have ds: "list_all is_digit ds" "ds \<noteq> []"
    using assms by (simp_all add: decimal_numeral_def)
  have cs: "list_all is_digit cs"
    using assms by (simp add: decimal_numeral_def)
  show ?thesis
    using numeral_number [OF assms(1), of other] numeral_number [OF assms(3), of other] ds(2)
    by (simp add: extractCursorPos_def match_line_column [OF ds(1) assms(2) cs] or_zero_Num)
qed


lemma filterCallback_goto_line:
  assumes "extractCursorPos (toNumber_other env) q = Some cp" and "cp_local cp"
    and "getCurrentFullEditor env = Some ed"
    and "num_ge (cp_line cp) (ed_firstVisibleLine ed)"
    and "num_le (cp_line cp) (ed_lastVisibleLine ed)"
  shows "filterCallback env q d w =
         Inr (ErrorNull, d, w\<lparr>currentPlugin := None\<rparr>,
              [EditorSetSelection (cp_line cp) (cp_ch cp) (cp_line cp)])"
  using assms by (simp add: filterCallback_def is_goto_line_def)

lemma line_visible:
  "num_ge (Num (of_int n - 1)) lo = (lo \<le> n - 1) \<and>
   num_le (Num (of_int n - 1)) hi = (n - 1 \<le> hi)"
proof -
  have "(of_int n :: rat) - 1 = of_int (n - 1)" by simp
  then show ?thesis
    by (simp only: num_ge_def num_le_def jsnum.case of_int_le_iff)
qed

text \<open>
  C1 (as amended). For a query \<open>:N\<close>, with \<open>N\<close> a decimal numeral (at most \<open>2^53\<close>),
  \<open>extractCursorPos\<close> returns \<open>local = true\<close>, \<open>line = N - 1\<close> and \<open>ch = 0\<close>, also when
  a bare \<open>,\<close> or \<open>:\<close> follows the numeral. When a column numeral \<open>M\<close> follows the
  separator, \<open>ch\<close> is \<open>M - 1\<close>. With a current full editor whose first and last visible
  lines enclose \<open>N - 1\<close>, \<open>_filterCallback\<close> selects from \<open>(N - 1, ch)\<close> to the end of line
  \<open>N - 1\<close> and reports no error: typing \<open>:5\<close> jumps to the fifth line.
\<close>

theorem goto_line_query:
  assumes line: "decimal_numeral ds" and column: "decimal_numeral cs"
    and sep: "is_separator s"
    and editor: "getCurrentFullEditor env = Some ed"
    and visible: "ed_firstVisibleLine ed \<le> dec_value ds - 1"
      "dec_value ds - 1 \<le> ed_lastVisibleLine ed"
  shows
    "extractCursorPos (toNumber_other env) (CHR '':'' # ds) =
       Some \<lparr>cp_query = CHR '':'' # ds, cp_local = True,
             cp_line = Num (of_int (dec_value ds) - 1), cp_ch = Num 0\<rparr> \<and>
     extractCursorPos (toNumber_other env) (CHR '':'' # ds @ [s]) =
       Some \<lparr>cp_query = CHR '':'' # ds @ [s], cp_local = True,
             cp_line = Num (of_int (dec_value ds) - 1), cp_ch = Num 0\<rparr> \<and>
     extractCursorPos (toNumber_other env) (CHR '':'' # ds @ s # cs) =
       Some \<lparr>cp_query = CHR '':'' # ds @ s # cs, cp_local = True,
             cp_line = Num (of_int (dec_value ds) - 1),
             cp_ch = Num (of_int (dec_value cs) - 1)\<rparr> \<and>
     filterCallback env (CHR '':'' # ds) d w =
       Inr (ErrorNull, d, w\<lparr>currentPlugin := None\<rparr>,
            [EditorSetSelection (Num (of_int (dec_value ds) - 1)) (Num 0)
               (Num (of_int (dec_value ds) - 1))]) \<and>
     filterCallback env (CHR '':'' # ds @ s # cs) d w =
       Inr (ErrorNull, d, w\<lparr>currentPlugin := None\<rparr>,
            [EditorSetSelection (Num (of_int (dec_value ds) - 1))
               (Num (of_int (dec_value cs) - 1)) (Num (of_int (dec_value ds) - 1))])"
proof -
  note a = extract_line_only [OF line, of "toNumber_other env"]
  note b = extract_line_sep [OF line sep, of "toNumber_other env"]
  note c = extract_line_column [OF line sep column, of "toNumber_other env"]
  have vis: "num_ge (Num (of_int (dec_value ds) - 1)) (ed_firstVisibleLine ed)"
    "num_le (Num (of_int (dec_value ds) - 1)) (ed_lastVisibleLine ed)"
    using visible by (simp_all add: line_visible)
  have fa: "filterCallback env (CHR '':'' # ds) d w =
       Inr (ErrorNull, d, w\<lparr>currentPlugin := None\<rparr>,
            [EditorSetSelection (Num (of_int (dec_value ds) - 1)) (Num 0)
               (Num (of_int (dec_value ds) - 1))])"
    using filterCallback_goto_line [OF a _ editor, of d w] vis by simp
  have fc: "filterCallback env (CHR '':'' # ds @ s # cs) d w =
       Inr (ErrorNull, d, w\<lparr>currentPlugin := None\<rparr>,
            [EditorSetSelection (Num (of_int (dec_value ds) - 1))
               (Num (of_int (dec_value cs) - 1)) (Num (of_int (dec_value ds) - 1))])"
    using filterCallback_goto_line [OF c _ editor, of d w] vis by simp
  show ?thesis using a b c fa fc by (intro conjI)
qed


theorem goto_line_query_witness:
  "decimal_numeral ''5'' \<and> decimal_numeral ''3'' \<and> is_separator (CHR '','') \<and>
   getCurrentFullEditor sample_env = Some sample_editor \<and>
   ed_firstVisibleLine sample_editor \<le> dec_value ''5'' - 1 \<and>
   dec_value ''5'' - 1 \<le> ed_lastVisibleLine sample_editor \<and>
   extractCursorPos (toNumber_other sample_env) '':5'' =
     Some \<lparr>cp_query = '':5'', cp_local = True, cp_line = Num 4, cp_ch = Num 0\<rparr> \<and>
   extractCursorPos (toNumber_other sample_env) '':5,3'' =
     Some \<lparr>cp_query = '':5,3'', cp_local = True, cp_line = Num 4, cp_ch = Num 2\<rparr> \<and>
   filterCallback sample_env '':5'' sample_dialog sample_world =
     Inr (ErrorNull, sample_dialog, sample_world\<lparr>currentPlugin := None\<rparr>,
          [EditorSetSelection (Num 4) (Num 0) (Num 4)])"
proof -
  have n: "decimal_numeral ''5''" and m: "decimal_numeral ''3''"
    by (simp_all add: decimal_numeral_def is_digit_def dec_value_def)
  have s: "is_separator (CHR '','')" by (simp add: is_separator_def)
  have e: "getCurrentFullEditor sample_env = Some sample_editor"
    by (simp add: sample_env_def)
  have v: "ed_firstVisibleLine sample_editor \<le> dec_value ''5'' - 1"
    "dec_value ''5'' - 1 \<le> ed_lastVisibleLine sample_editor"
    by (simp_all add: sample_editor_def dec_value_def)
  show ?thesis
    using goto_line_query [OF n m s e v, of sample_dialog sample_world] n m s e v
    by (simp add: dec_value_def)
qed

text \<open>With a column numeral the column is not 0: the query \<open>:5,3\<close> yields \<open>ch = 2\<close>.\<close>

theorem goto_line_column_counterexample:
  "extractCursorPos (\<lambda>s. NaN) '':5,3'' =
     Some \<lparr>cp_query = '':5,3'', cp_local = True, cp_line = Num 4, cp_ch = Num 2\<rparr> \<and>
   extractCursorPos (\<lambda>s. NaN) '':5,3'' \<noteq>
     Some \<lparr>cp_query = '':5,3'', cp_local = True, cp_line = Num 4, cp_ch = Num 0\<rparr>"
  by (simp add: extractCursorPos_def match_CURSOR_POS_EXP_def is_separator_def
      is_line_terminator_def nonempty_def group_truthy_def isNaN_def group_number_def
      ToNumber_def decimal_numeral_def is_digit_def dec_value_def minus_one_def or_zero_def
      Let_def)

subsection \<open>C3 and C4: dispatch to the plug-ins and the matcher cache\<close>

lemma settle_frame:
  "currentPlugin (settle p v w) = currentPlugin w \<and>
   matcher_heap (settle p v w) = matcher_heap w \<and>
   fileList (settle p v w) = fileList w \<and>
   fileListPromise (settle p v w) = fileListPromise w \<and>
   curDialog (settle p v w) = curDialog w"
  by (simp add: settle_def)

lemma add_callback_frame:
  "currentPlugin (add_callback p cb w) = currentPlugin w \<and>
   matcher_heap (add_callback p cb w) = matcher_heap w \<and>
   fileList (add_callback p cb w) = fileList w \<and>
   fileListPromise (add_callback p cb w) = fileListPromise w \<and>
   curDialog (add_callback p cb w) = curDialog w"
  by (simp add: add_callback_def)

lemma searchFileList_frame:
  assumes "searchFileList env query matcher w = Inr (res, w1)"
  shows "currentPlugin w1 = currentPlugin w \<and> matcher_heap w1 = matcher_heap w \<and>
         fileList w1 = fileList w \<and> fileListPromise w1 = fileListPromise w \<and>
         curDialog w1 = curDialog w"
  using assms
  by (auto simp: searchFileList_def new_promise_def done_with_def searchAgain_def
      settle_frame add_callback_frame
      split: option.splits pstatus.splits sum.splits prod.splits)

lemma filterCallback_special:
  assumes "is_goto_line (toNumber_other env) query \<or> query = '':''"
  shows "\<exists>res fx. filterCallback env query d w =
           Inr (res, d, w\<lparr>currentPlugin := None\<rparr>, fx)"
  using assms
  by (auto simp: filterCallback_def Let_def split: option.splits)

lemma filterCallback_plugin:
  assumes "\<not> is_goto_line (toNumber_other env) query" and "query \<noteq> '':''"
    and "find (\<lambda>plugin. plugin_match plugin query) (getPluginsForCurrentContext env) =
         Some plugin"
  shows "filterCallback env query d w =
         (case lookup_matcher (matchers d) (plugin_name plugin) of
            Some m \<Rightarrow>
              Inr (PluginResult (plugin_search plugin query m), d,
                   w\<lparr>currentPlugin := Some plugin\<rparr>,
                   [updateDialogLabel (Some plugin) query])
          | None \<Rightarrow>
              Inr (PluginResult
                     (plugin_search plugin query (StringMatcher (length (matcher_heap w)))),
                   d\<lparr>matchers := (matchers d)(plugin_name plugin \<mapsto> length (matcher_heap w))\<rparr>,
                   w\<lparr>currentPlugin := Some plugin,
                     matcher_heap :=
                       matcher_heap w @ [Options (plugin_matcherOptions plugin)]\<rparr>,
                   [updateDialogLabel (Some plugin) query]))"
  using assms by (simp add: filterCallback_def Let_def split: option.splits)

lemma filterCallback_default:
  fixes env :: "('o, 'r, 'm) env"
  assumes "\<not> is_goto_line (toNumber_other env) query" and "query \<noteq> '':''"
    and "find (\<lambda>plugin. plugin_match plugin query) (getPluginsForCurrentContext env) = None"
  shows "filterCallback env query d w =
         (case searchFileList env query (filenameMatcher d) (w\<lparr>currentPlugin := None\<rparr>) of
            Inl e \<Rightarrow> Inl e
          | Inr (res, w1) \<Rightarrow>
              Inr (res, d, w1, [updateDialogLabel (None :: ('o, 'r) plugin option) query]))"
  using assms by (simp add: filterCallback_def Let_def)


lemma first_match:
  assumes "i < length ps" and "P (ps ! i)" and "\<forall>j<i. \<not> P (ps ! j)"
  shows "find P ps = Some (ps ! i)"
  using assms by (subst find_Some_iff) blast

lemma no_match: "(\<forall>p\<in>set ps. \<not> P p) \<Longrightarrow> find P ps = None"
  by (simp add: find_None_iff)

text \<open>
  C3. Every call of \<open>_filterCallback\<close> first sets \<open>currentPlugin\<close> to \<open>null\<close>. For a
  query that is neither a bare go-to-line query nor \<open>:\<close>, it goes through the providers
  registered for the language id of the current document, in order, and hands the query
  to the first plug-in whose \<open>match\<close> accepts it: \<open>currentPlugin\<close> becomes that plug-in and
  the result is its \<open>search(query, matcher)\<close>. When no plug-in accepts the query the
  result is \<open>searchFileList(query, _filenameMatcher)\<close> and \<open>currentPlugin\<close> stays \<open>null\<close>.
\<close>

theorem filterCallback_dispatch:
  fixes env :: "('o, 'r, 'm) env"
  assumes doc: "getCurrentDocument env = Some curDoc"
    and plugins: "plugins = getProvidersForLanguageId env (Some (doc_languageId curDoc))"
  shows
    "(is_goto_line (toNumber_other env) query \<or> query = '':'' \<longrightarrow>
        (\<exists>res fx. filterCallback env query d w =
           Inr (res, d, w\<lparr>currentPlugin := None\<rparr>, fx))) \<and>
     (\<not> is_goto_line (toNumber_other env) query \<and> query \<noteq> '':'' \<and>
      i < length plugins \<and> plugin_match (plugins ! i) query \<and>
      (\<forall>j<i. \<not> plugin_match (plugins ! j) query) \<longrightarrow>
        (\<exists>d' w'. filterCallback env query d w =
           Inr (PluginResult
                  (plugin_search (plugins ! i) query
                     (case lookup_matcher (matchers d) (plugin_name (plugins ! i)) of
                        Some m \<Rightarrow> m
                      | None \<Rightarrow> StringMatcher (length (matcher_heap w)))),
                d', w', [updateDialogLabel (Some (plugins ! i)) query]) \<and>
           currentPlugin w' = Some (plugins ! i))) \<and>
     (\<not> is_goto_line (toNumber_other env) query \<and> query \<noteq> '':'' \<and>
      (\<forall>plugin\<in>set plugins. \<not> plugin_match plugin query) \<longrightarrow>
        (case searchFileList env query (filenameMatcher d) (w\<lparr>currentPlugin := None\<rparr>) of
           Inl e \<Rightarrow> filterCallback env query d w = Inl e
         | Inr (res, w') \<Rightarrow>
             filterCallback env query d w =
               Inr (res, d, w', [updateDialogLabel (None :: ('o, 'r) plugin option) query]) \<and>
             currentPlugin w' = None))"
proof -
  have ctx: "getPluginsForCurrentContext env = plugins"
    by (simp add: getPluginsForCurrentContext_def doc plugins)
  have special: "\<exists>res fx. filterCallback env query d w =
      Inr (res, d, w\<lparr>currentPlugin := None\<rparr>, fx)"
    if "is_goto_line (toNumber_other env) query \<or> query = '':''"
    using that by (rule filterCallback_special)
  have plugin: "\<exists>d' w'. filterCallback env query d w =
      Inr (PluginResult
             (plugin_search (plugins ! i) query
                (case lookup_matcher (matchers d) (plugin_name (plugins ! i)) of
                   Some m \<Rightarrow> m
                 | None \<Rightarrow> StringMatcher (length (matcher_heap w)))),
           d', w', [updateDialogLabel (Some (plugins ! i)) query]) \<and>
      currentPlugin w' = Some (plugins ! i)"
    if "\<not> is_goto_line (toNumber_other env) query" and "query \<noteq> '':''"
      and "i < length plugins" and "plugin_match (plugins ! i) query"
      and "\<forall>j<i. \<not> plugin_match (plugins ! j) query"
  proof -
    have "find (\<lambda>plugin. plugin_match plugin query) (getPluginsForCurrentContext env) =
        Some (plugins ! i)"
      unfolding ctx using that(3-5) by (rule first_match)
    from filterCallback_plugin [OF that(1,2) this, of d w] show ?thesis
      by (cases "lookup_matcher (matchers d) (plugin_name (plugins ! i))") simp_all
  qed
  have default: "case searchFileList env query (filenameMatcher d) (w\<lparr>currentPlugin := None\<rparr>) of
        Inl e \<Rightarrow> filterCallback env query d w = Inl e
      | Inr (res, w') \<Rightarrow>
          filterCallback env query d w =
            Inr (res, d, w', [updateDialogLabel (None :: ('o, 'r) plugin option) query]) \<and>
          currentPlugin w' = None"
    if "\<not> is_goto_line (toNumber_other env) query" and "query \<noteq> '':''"
      and "\<forall>plugin\<in>set plugins. \<not> plugin_match plugin query"
  proof -
    have none: "find (\<lambda>plugin. plugin_match plugin query) (getPluginsForCurrentContext env) =
        None"
      unfolding ctx using that(3) by (rule no_match)
    show ?thesis
    proof (cases "searchFileList env query (filenameMatcher d) (w\<lparr>currentPlugin := None\<rparr>)")
      case (Inl e)
      then show ?thesis
        using filterCallback_default [OF that(1,2) none, of d w] by simp
    next
      case (Inr r)
      obtain res w' where r: "r = (res, w')" by (cases r)
      have "currentPlugin w' = None"
        using searchFileList_frame [OF Inr [unfolded r]] by simp
      then show ?thesis
        using filterCallback_default [OF that(1,2) none, of d w] Inr r by simp
    qed
  qed
  show ?thesis using special plugin default by blast
qed


lemmas cursor_simps =
  extractCursorPos_def match_CURSOR_POS_EXP_def is_separator_def is_line_terminator_def
  nonempty_def group_truthy_def isNaN_def group_number_def ToNumber_def decimal_numeral_def
  is_digit_def dec_value_def minus_one_def or_zero_def is_goto_line_def Let_def

lemmas sample_simps =
  sample_env_def sample_plugin_def sample_editor_def sample_dialog_def sample_world_def

lemma sample_at_query: "\<not> is_goto_line (toNumber_other sample_env) ''@foo''"
  by (simp add: cursor_simps sample_env_def)

lemma sample_plain_query: "\<not> is_goto_line (toNumber_other sample_env) ''main''"
  by (simp add: cursor_simps sample_env_def)

theorem filterCallback_dispatch_witness:
  "getCurrentDocument sample_env =
     Some \<lparr>doc_fullPath = ''/p/main.js'', doc_languageId = ''javascript''\<rparr> \<and>
   getProvidersForLanguageId sample_env (Some ''javascript'') = [sample_plugin] \<and>
   \<not> is_goto_line (toNumber_other sample_env) ''@foo'' \<and>
   plugin_match ([sample_plugin] ! 0) ''@foo'' \<and>
   (\<exists>d' w'. filterCallback sample_env ''@foo'' sample_dialog sample_world =
      Inr (PluginResult [''@foo''], d', w', [DialogLabel CMD_GOTO_DEFINITION]) \<and>
      currentPlugin w' = Some sample_plugin) \<and>
   \<not> is_goto_line (toNumber_other sample_env) ''main'' \<and>
   \<not> plugin_match sample_plugin ''main'' \<and>
   filterCallback sample_env ''main'' sample_dialog sample_world =
     Inr (ResultList
            [\<lparr>sr_match = 7, sr_label = ''main.js'', sr_fullPath = ''/p/main.js'',
              sr_filenameWithoutExtension = ''main''\<rparr>],
          sample_dialog, sample_world\<lparr>currentPlugin := None\<rparr>, [DialogLabel NoLabel])"
proof -
  let ?doc = "\<lparr>doc_fullPath = ''/p/main.js'', doc_languageId = ''javascript''\<rparr>"
  have doc: "getCurrentDocument sample_env = Some ?doc"
    by (simp add: sample_env_def)
  have ps: "[sample_plugin] = getProvidersForLanguageId sample_env (Some (doc_languageId ?doc))"
    by (simp add: sample_env_def)
  have m: "plugin_match ([sample_plugin] ! 0) ''@foo''" "\<not> plugin_match sample_plugin ''main''"
    by (simp_all add: sample_plugin_def)
  have search: "searchFileList sample_env ''main'' (filenameMatcher sample_dialog)
      (sample_world\<lparr>currentPlugin := None\<rparr>) =
      Inr (ResultList
            [\<lparr>sr_match = 7, sr_label = ''main.js'', sr_fullPath = ''/p/main.js'',
              sr_filenameWithoutExtension = ''main''\<rparr>],
           sample_world\<lparr>currentPlugin := None\<rparr>)"
    by (simp add: searchFileList_def doSearchFileList_def strip_cursor_pos_def jq_map_def
        file_result_def List.map_filter_def sample_simps cursor_simps filenameFromPath_def
        lastIndexOf_def slice_def clamp_index_def)
  note t1 = filterCallback_dispatch [OF doc ps, where query = "''@foo''" and i = 0
      and d = sample_dialog and w = sample_world]
  note t2 = filterCallback_dispatch [OF doc ps, where query = "''main''" and i = 0
      and d = sample_dialog and w = sample_world]
  have a: "\<exists>d' w'. filterCallback sample_env ''@foo'' sample_dialog sample_world =
      Inr (PluginResult [''@foo''], d', w', [DialogLabel CMD_GOTO_DEFINITION]) \<and>
      currentPlugin w' = Some sample_plugin"
    using t1 sample_at_query m(1)
    by (simp add: sample_plugin_def updateDialogLabel_def)
  have b: "filterCallback sample_env ''main'' sample_dialog sample_world =
     Inr (ResultList
            [\<lparr>sr_match = 7, sr_label = ''main.js'', sr_fullPath = ''/p/main.js'',
              sr_filenameWithoutExtension = ''main''\<rparr>],
          sample_dialog, sample_world\<lparr>currentPlugin := None\<rparr>, [DialogLabel NoLabel])"
    using t2 sample_plain_query m(2)
    by (simp add: search updateDialogLabel_def)
  show ?thesis
    using doc ps [symmetric] sample_at_query sample_plain_query m a b by simp
qed


lemma lookup_matcher_own: "ms name = Some a \<Longrightarrow> lookup_matcher ms name = Some (StringMatcher a)"
  by (simp add: lookup_matcher_def)

lemma lookup_matcher_miss: "lookup_matcher ms name = None \<Longrightarrow> ms name = None"
  by (simp add: lookup_matcher_def split: option.splits)

lemma filterCallback_keeps_matchers:
  assumes "filterCallback env query d w = Inr (res, d1, w1, fx)"
    and "matchers d name = Some a"
  shows "matchers d1 name = Some a"
proof (cases "is_goto_line (toNumber_other env) query \<or> query = '':''")
  case True
  then show ?thesis
    using filterCallback_special [OF True, of d w] assms by auto
next
  case False
  then have ng: "\<not> is_goto_line (toNumber_other env) query" and nc: "query \<noteq> '':''"
    by simp_all
  show ?thesis
  proof (cases "find (\<lambda>plugin. plugin_match plugin query) (getPluginsForCurrentContext env)")
    case None
    then show ?thesis
      using filterCallback_default [OF ng nc None, of d w] assms
      by (auto split: sum.splits)
  next
    case (Some plugin)
    show ?thesis
    proof (cases "lookup_matcher (matchers d) (plugin_name plugin)")
      case None
      then have "plugin_name plugin \<noteq> name"
        using lookup_matcher_miss [OF None] assms(2) by auto
      then show ?thesis
        using filterCallback_plugin [OF ng nc Some, of d w] assms None by auto
    next
      case (Some m)
      then show ?thesis
        using filterCallback_plugin [OF ng nc \<open>find _ _ = Some plugin\<close>, of d w] assms by auto
    qed
  qed
qed

lemma filterCallbacks_keep_matchers:
  "filterCallbacks steps d w = Inr (d2, w2) \<Longrightarrow> matchers d name = Some a \<Longrightarrow>
   matchers d2 name = Some a"
proof (induction steps arbitrary: d w)
  case Nil
  then show ?case by simp
next
  case (Cons step steps)
  obtain env query where step: "step = (env, query)" by (cases step)
  show ?case
  proof (cases "filterCallback env query d w")
    case (Inl e)
    then show ?thesis using Cons.prems(1) step by simp
  next
    case (Inr r)
    obtain res d1 w1 fx where r: "r = (res, d1, w1, fx)" by (cases r)
    have "matchers d1 name = Some a"
      using filterCallback_keeps_matchers [OF Inr [unfolded r] Cons.prems(2)] .
    moreover have "filterCallbacks steps d1 w1 = Inr (d2, w2)"
      using Cons.prems(1) step Inr r by simp
    ultimately show ?thesis by (rule Cons.IH [rotated])
  qed
qed

lemma showDialog_keeps_matchers:
  "showDialog env prefix initialString d w = Inr (d1, w1, fx) \<Longrightarrow> matchers d1 = matchers d"
  by (auto simp: showDialog_def Let_def split: if_splits option.splits sum.splits prod.splits)

lemma handleCloseBar_keeps_matchers:
  "matchers (fst (handleCloseBar env reason p d)) = matchers d"
  by (simp add: handleCloseBar_def Let_def)

lemma close_keeps_matchers: "close env d w = (pr, d1, w1, fx) \<Longrightarrow> matchers d1 = matchers d"
  using handleCloseBar_keeps_matchers [of env "modalBar_close_reason env" "length (promises w)" d]
  by (auto simp: close_def new_promise_def Let_def split: if_splits prod.splits)


lemma lookup_matcher_fresh:
  "lookup_matcher (matchers (fst (new_dialog w))) name =
     (if name \<in> set object_prototype_names then Some (Inherited name) else None)"
  by (simp add: lookup_matcher_def new_dialog_def)

text \<open>
  The cache when the lookup misses. The cache \<open>_matchers\<close> of a dialog is empty when the
  constructor returns and no operation of the dialog removes or replaces an entry. A
  dispatch to a plug-in constructs a \<open>StringMatcher\<close>, from the plug-in's
  \<open>matcherOptions\<close>, exactly when the lookup under the plug-in's name finds nothing, and
  stores it under that name; every later dispatch to a plug-in of that name, after any
  number of further queries, passes that same matcher and constructs none. On a new
  dialog the lookup finds nothing exactly for the names that are not properties of
  \<open>Object.prototype\<close> (\<open>lookup_matcher_fresh\<close>); a dispatch under one of the other
  names is evaluated at the end of this section.
\<close>

theorem matcher_cache:
  fixes env env' :: "('o, 'r, 'm) env"
  assumes first: "dispatches env query plugin"
    and again: "dispatches env' query' plugin'"
    and same: "plugin_name plugin' = plugin_name plugin"
  shows
    "matchers (fst (new_dialog w0)) = Map.empty \<and>
     (lookup_matcher (matchers d) (plugin_name plugin) = None \<longrightarrow>
        filterCallback env query d w =
          Inr (PluginResult
                 (plugin_search plugin query (StringMatcher (length (matcher_heap w)))),
               d\<lparr>matchers := (matchers d)(plugin_name plugin \<mapsto> length (matcher_heap w))\<rparr>,
               w\<lparr>currentPlugin := Some plugin,
                 matcher_heap := matcher_heap w @ [Options (plugin_matcherOptions plugin)]\<rparr>,
               [updateDialogLabel (Some plugin) query])) \<and>
     (\<forall>m. lookup_matcher (matchers d) (plugin_name plugin) = Some m \<longrightarrow>
        filterCallback env query d w =
          Inr (PluginResult (plugin_search plugin query m), d,
               w\<lparr>currentPlugin := Some plugin\<rparr>, [updateDialogLabel (Some plugin) query])) \<and>
     (\<forall>res d1 w1 fx d2 w2.
        lookup_matcher (matchers d) (plugin_name plugin) = None \<and>
        filterCallback env query d w = Inr (res, d1, w1, fx) \<and>
        filterCallbacks steps d1 w1 = Inr (d2, w2) \<longrightarrow>
        filterCallback env' query' d2 w2 =
          Inr (PluginResult
                 (plugin_search plugin' query' (StringMatcher (length (matcher_heap w)))),
               d2, w2\<lparr>currentPlugin := Some plugin'\<rparr>,
               [updateDialogLabel (Some plugin') query'])) \<and>
     (\<forall>d1 w1 fx. showDialog env prefix initialString d w = Inr (d1, w1, fx) \<longrightarrow>
        matchers d1 = matchers d) \<and>
     matchers (fst (handleCloseBar env reason p d)) = matchers d \<and>
     (\<forall>pr d1 w1 fx. close env d w = (pr, d1, w1, fx) \<longrightarrow> matchers d1 = matchers d)"
proof -
  have f: "\<not> is_goto_line (toNumber_other env) query" "query \<noteq> '':''"
    "find (\<lambda>plugin. plugin_match plugin query) (getPluginsForCurrentContext env) = Some plugin"
    using first by (simp_all add: dispatches_def)
  have g: "\<not> is_goto_line (toNumber_other env') query'" "query' \<noteq> '':''"
    "find (\<lambda>plugin. plugin_match plugin query') (getPluginsForCurrentContext env') =
       Some plugin'"
    using again by (simp_all add: dispatches_def)
  note step = filterCallback_plugin [OF f, of d w]
  have empty: "matchers (fst (new_dialog w0)) = Map.empty"
    by (simp add: new_dialog_def)
  have miss: "filterCallback env query d w =
      Inr (PluginResult
             (plugin_search plugin query (StringMatcher (length (matcher_heap w)))),
           d\<lparr>matchers := (matchers d)(plugin_name plugin \<mapsto> length (matcher_heap w))\<rparr>,
           w\<lparr>currentPlugin := Some plugin,
             matcher_heap := matcher_heap w @ [Options (plugin_matcherOptions plugin)]\<rparr>,
           [updateDialogLabel (Some plugin) query])"
    if "lookup_matcher (matchers d) (plugin_name plugin) = None"
    using step that by simp
  have hit: "filterCallback env query d w =
      Inr (PluginResult (plugin_search plugin query m), d,
           w\<lparr>currentPlugin := Some plugin\<rparr>, [updateDialogLabel (Some plugin) query])"
    if "lookup_matcher (matchers d) (plugin_name plugin) = Some m" for m
    using step that by simp
  have later: "filterCallback env' query' d2 w2 =
      Inr (PluginResult
             (plugin_search plugin' query' (StringMatcher (length (matcher_heap w)))),
           d2, w2\<lparr>currentPlugin := Some plugin'\<rparr>,
           [updateDialogLabel (Some plugin') query'])"
    if none: "lookup_matcher (matchers d) (plugin_name plugin) = None"
      and one: "filterCallback env query d w = Inr (res, d1, w1, fx)"
      and more: "filterCallbacks steps d1 w1 = Inr (d2, w2)"
    for res d1 w1 fx d2 w2
  proof -
    have "matchers d1 (plugin_name plugin) = Some (length (matcher_heap w))"
      using miss [OF none] one by auto
    then have "matchers d2 (plugin_name plugin') = Some (length (matcher_heap w))"
      using filterCallbacks_keep_matchers [OF more] same by simp
    then have "lookup_matcher (matchers d2) (plugin_name plugin') =
        Some (StringMatcher (length (matcher_heap w)))"
      by (rule lookup_matcher_own)
    then show ?thesis
      using filterCallback_plugin [OF g, of d2 w2] by simp
  qed
  show ?thesis
    using empty miss hit later showDialog_keeps_matchers [of env prefix initialString d w]
      handleCloseBar_keeps_matchers [of env reason p d] close_keeps_matchers [of env d w]
    by blast
qed


lemma sample_dispatches:
  "dispatches sample_env ''@foo'' sample_plugin \<and> dispatches sample_env ''@bar'' sample_plugin"
  by (simp add: dispatches_def cursor_simps getPluginsForCurrentContext_def sample_env_def
      sample_plugin_def)

lemma sample_plain_step:
  fixes w :: "(unit, string list, nat) world"
  assumes "fileList w = Some files"
  shows "filterCallbacks [(sample_env, ''main'')] d w = Inr (d, w\<lparr>currentPlugin := None\<rparr>)"
  using assms
  by (simp add: filterCallback_def searchFileList_def getPluginsForCurrentContext_def
      cursor_simps sample_env_def sample_plugin_def)

theorem matcher_cache_witness:
  "dispatches sample_env ''@foo'' sample_plugin \<and>
   dispatches sample_env ''@bar'' sample_plugin \<and>
   lookup_matcher (matchers sample_dialog) (plugin_name sample_plugin) = None \<and>
   filterCallback sample_env ''@foo'' sample_dialog sample_world =
     Inr (PluginResult [''@foo''],
          sample_dialog\<lparr>matchers := [''symbols'' \<mapsto> 1]\<rparr>,
          sample_world\<lparr>currentPlugin := Some sample_plugin,
                        matcher_heap := [SegmentedSearch, Options None]\<rparr>,
          [DialogLabel CMD_GOTO_DEFINITION]) \<and>
   filterCallbacks [(sample_env, ''main'')] (sample_dialog\<lparr>matchers := [''symbols'' \<mapsto> 1]\<rparr>)
     (sample_world\<lparr>currentPlugin := Some sample_plugin,
                   matcher_heap := [SegmentedSearch, Options None]\<rparr>) =
     Inr (sample_dialog\<lparr>matchers := [''symbols'' \<mapsto> 1]\<rparr>,
          sample_world\<lparr>currentPlugin := None,
                        matcher_heap := [SegmentedSearch, Options None]\<rparr>) \<and>
   filterCallback sample_env ''@bar'' (sample_dialog\<lparr>matchers := [''symbols'' \<mapsto> 1]\<rparr>)
     (sample_world\<lparr>currentPlugin := None,
                   matcher_heap := [SegmentedSearch, Options None]\<rparr>) =
     Inr (PluginResult [''@bar''],
          sample_dialog\<lparr>matchers := [''symbols'' \<mapsto> 1]\<rparr>,
          sample_world\<lparr>currentPlugin := Some sample_plugin,
                        matcher_heap := [SegmentedSearch, Options None]\<rparr>,
          [DialogLabel CMD_GOTO_DEFINITION])"
proof -
  let ?d1 = "sample_dialog\<lparr>matchers := [''symbols'' \<mapsto> 1]\<rparr>"
  let ?w1 = "sample_world\<lparr>currentPlugin := Some sample_plugin,
                        matcher_heap := [SegmentedSearch, Options None]\<rparr>"
  let ?w2 = "sample_world\<lparr>currentPlugin := None,
                        matcher_heap := [SegmentedSearch, Options None]\<rparr>"
  have none: "lookup_matcher (matchers sample_dialog) (plugin_name sample_plugin) = None"
    by (simp add: lookup_matcher_def sample_dialog_def sample_plugin_def
        object_prototype_names_def)
  note t = matcher_cache [OF conjunct1 [OF sample_dispatches] conjunct2 [OF sample_dispatches]
      refl, where d = sample_dialog and w = sample_world
      and steps = "[(sample_env, ''main'')]"]
  have one: "filterCallback sample_env ''@foo'' sample_dialog sample_world =
     Inr (PluginResult [''@foo''], ?d1, ?w1, [DialogLabel CMD_GOTO_DEFINITION])"
    using t [THEN conjunct2, THEN conjunct1, rule_format, OF none]
    by (simp add: sample_plugin_def sample_world_def sample_dialog_def updateDialogLabel_def)
  have more: "filterCallbacks [(sample_env, ''main'')] ?d1 ?w1 = Inr (?d1, ?w2)"
    using sample_plain_step [of ?w1 _ ?d1] by (simp add: sample_world_def)
  have two: "filterCallback sample_env ''@bar'' ?d1 ?w2 =
     Inr (PluginResult [''@bar''], ?d1, ?w1, [DialogLabel CMD_GOTO_DEFINITION])"
    using t [THEN conjunct2, THEN conjunct2, THEN conjunct2, THEN conjunct1, rule_format,
        OF conjI [OF none conjI [OF one more]]]
    by (simp add: sample_plugin_def sample_world_def updateDialogLabel_def)
  show ?thesis using sample_dispatches none one more two by simp
qed

text \<open>
  C4. A plug-in whose name is a property of \<open>Object.prototype\<close>, here \<open>constructor\<close>, on
  a dialog fresh from the constructor, whose cache is empty and whose only matcher is
  the filename matcher. The first dispatch, of \<open>@foo\<close>, constructs no \<open>StringMatcher\<close>
  and stores nothing in the cache: the dialog and the matchers allocated are as before,
  and \<open>search\<close> receives what \<open>Object.prototype\<close> answers under that name, which is no
  \<open>StringMatcher\<close>. A second dispatch, of \<open>@bar\<close>, does the same. So for such a name no
  matcher is made from \<open>matcherOptions\<close> on the first dispatch and none is cached for
  reuse, against the description of \<open>search\<close> ("takes a query string and a
  StringMatcher") and of \<open>_matchers\<close> ("StringMatcher caches for each QuickOpen
  plugin").
\<close>

theorem matcher_cache_prototype_name:
  "matchers (fst (new_dialog (initial_world :: (unit, matcher_ref, nat) world))) = Map.empty \<and>
   matcher_heap (snd (new_dialog (initial_world :: (unit, matcher_ref, nat) world))) =
     [SegmentedSearch] \<and>
   filterCallback constructor_env ''@foo'' (fst (new_dialog initial_world))
     (snd (new_dialog initial_world)) =
     Inr (PluginResult (Inherited ''constructor''), fst (new_dialog initial_world),
          (snd (new_dialog initial_world))\<lparr>currentPlugin := Some constructor_plugin\<rparr>,
          [DialogLabel CMD_GOTO_DEFINITION]) \<and>
   filterCallback constructor_env ''@bar'' (fst (new_dialog initial_world))
     ((snd (new_dialog initial_world))\<lparr>currentPlugin := Some constructor_plugin\<rparr>) =
     Inr (PluginResult (Inherited ''constructor''), fst (new_dialog initial_world),
          (snd (new_dialog initial_world))\<lparr>currentPlugin := Some constructor_plugin\<rparr>,
          [DialogLabel CMD_GOTO_DEFINITION])"
  by (simp add: filterCallback_def lookup_matcher_def object_prototype_names_def
      getPluginsForCurrentContext_def updateDialogLabel_def new_dialog_def initial_world_def
      constructor_env_def constructor_plugin_def cursor_simps)

subsection \<open>C5: the file search\<close>

lemma remove_first_at:
  assumes "pat = c # pat'" and "c \<notin> set pre"
  shows "remove_first (pre @ pat @ rest) pat = pre @ rest"
  using assms(2)
proof (induction pre)
  case Nil
  then show ?case using assms(1) by simp
next
  case (Cons x pre)
  then have "x \<noteq> c" by auto
  then have "take (length pat) (x # pre @ pat @ rest) \<noteq> pat"
    using assms(1) by auto
  then show ?case using Cons by simp
qed

lemma dropWhile_line_terminator:
  "dropWhile (\<lambda>c. \<not> is_line_terminator c) s = [] \<or>
   is_line_terminator (hd (dropWhile (\<lambda>c. \<not> is_line_terminator c) s))"
  using hd_dropWhile [of "\<lambda>c. \<not> is_line_terminator c" s] by auto

lemma match_shape:
  assumes "match_CURSOR_POS_EXP query = Some ri"
  shows "\<exists>tail rest. whole ri = CHR '':'' # tail \<and>
           query = takeWhile (\<lambda>c. c \<noteq> CHR '':'') query @ whole ri @ rest \<and>
           (rest = [] \<or> is_line_terminator (hd rest))"
proof -
  let ?P = "\<lambda>c. c \<noteq> CHR '':''"
  let ?S = "\<lambda>c. \<not> is_separator c"
  let ?T = "\<lambda>c. \<not> is_line_terminator c"
  obtain colon rest0 where d: "dropWhile ?P query = colon # rest0"
    using assms by (auto simp: match_CURSOR_POS_EXP_def split: list.splits)
  have colon: "colon = CHR '':''"
    using hd_dropWhile [of ?P query] d by auto
  have q: "query = takeWhile ?P query @ colon # rest0"
    using takeWhile_dropWhile_id [of ?P query] d by simp
  have r0: "rest0 = takeWhile ?S rest0 @ dropWhile ?S rest0" by simp
  have m: "(case dropWhile ?S rest0 of
              [] \<Rightarrow> Some \<lparr>whole = colon # takeWhile ?S rest0,
                           group1 = nonempty (takeWhile ?S rest0),
                           group2 = None, group3 = None\<rparr>
            | sep # rest' \<Rightarrow>
                Some \<lparr>whole = colon # takeWhile ?S rest0 @ sep # takeWhile ?T rest',
                      group1 = nonempty (takeWhile ?S rest0),
                      group2 = Some (sep # takeWhile ?T rest'),
                      group3 = nonempty (takeWhile ?T rest')\<rparr>) = Some ri"
    using assms unfolding match_CURSOR_POS_EXP_def Let_def d by simp
  show ?thesis
  proof (cases "dropWhile ?S rest0")
    case Nil
    have "whole ri = colon # takeWhile ?S rest0"
      using m by (simp only: Nil list.case) auto
    moreover have "rest0 = takeWhile ?S rest0" using r0 Nil by simp
    ultimately have "query = takeWhile ?P query @ whole ri @ []"
      using q by simp
    then show ?thesis using \<open>whole ri = colon # takeWhile ?S rest0\<close> colon by blast
  next
    case (Cons sep rest')
    have w: "whole ri = colon # takeWhile ?S rest0 @ sep # takeWhile ?T rest'"
      using m by (simp only: Cons list.case) auto
    have "rest' = takeWhile ?T rest' @ dropWhile ?T rest'" by simp
    then have "rest0 = takeWhile ?S rest0 @ sep # takeWhile ?T rest' @ dropWhile ?T rest'"
      using r0 Cons by simp
    then have "colon # rest0 = whole ri @ dropWhile ?T rest'"
      using w by simp
    then have "query = takeWhile ?P query @ whole ri @ dropWhile ?T rest'"
      using q by simp
    then show ?thesis
      using w colon dropWhile_line_terminator [of rest'] by blast
  qed
qed

lemma extract_query:
  assumes "extractCursorPos other query = Some cp"
  shows "\<exists>ri. match_CURSOR_POS_EXP query = Some ri \<and> cp_query cp = whole ri"
  using assms by (auto simp: extractCursorPos_def Let_def split: option.splits if_splits)

lemma strip_shape:
  assumes "extractCursorPos other query = Some cp" and "\<not> cp_local cp"
  shows "\<exists>rest. query = takeWhile (\<lambda>c. c \<noteq> CHR '':'') query @ cp_query cp @ rest \<and>
           strip_cursor_pos other query = takeWhile (\<lambda>c. c \<noteq> CHR '':'') query @ rest \<and>
           (rest = [] \<or> is_line_terminator (hd rest))"
proof -
  let ?pre = "takeWhile (\<lambda>c. c \<noteq> CHR '':'') query"
  obtain ri where ri: "match_CURSOR_POS_EXP query = Some ri" "cp_query cp = whole ri"
    using extract_query [OF assms(1)] by blast
  obtain tail rest where s: "whole ri = CHR '':'' # tail"
    "query = ?pre @ whole ri @ rest" "rest = [] \<or> is_line_terminator (hd rest)"
    using match_shape [OF ri(1)] by blast
  have "CHR '':'' \<notin> set ?pre"
    using set_takeWhileD [of "CHR '':''" "\<lambda>c. c \<noteq> CHR '':''" query] by auto
  then have "remove_first (?pre @ whole ri @ rest) (whole ri) = ?pre @ rest"
    using remove_first_at [OF s(1)] by simp
  then have "remove_first query (cp_query cp) = ?pre @ rest"
    using s(2) ri(2) by simp
  moreover have "strip_cursor_pos other query = remove_first query (cp_query cp)"
    using assms ri(2) s(1) by (simp add: strip_cursor_pos_def)
  ultimately show ?thesis using s(2,3) ri(2) by auto
qed

lemma strip_suffix:
  assumes "extractCursorPos other query = Some cp" and "\<not> cp_local cp"
    and "list_all (\<lambda>c. \<not> is_line_terminator c) query"
  shows "query = takeWhile (\<lambda>c. c \<noteq> CHR '':'') query @ cp_query cp \<and>
         strip_cursor_pos other query = takeWhile (\<lambda>c. c \<noteq> CHR '':'') query"
proof -
  obtain rest where r: "query = takeWhile (\<lambda>c. c \<noteq> CHR '':'') query @ cp_query cp @ rest"
    "strip_cursor_pos other query = takeWhile (\<lambda>c. c \<noteq> CHR '':'') query @ rest"
    "rest = [] \<or> is_line_terminator (hd rest)"
    using strip_shape [OF assms(1,2)] by blast
  have "rest = []"
  proof (rule ccontr)
    assume ne: "rest \<noteq> []"
    then have "hd rest \<in> set rest" by simp
    then have "hd rest \<in> set query" using r(1)
      by (metis Un_iff set_append)
    then have "\<not> is_line_terminator (hd rest)"
      using assms(3) by (simp add: list_all_iff)
    then show False using r(3) ne by simp
  qed
  then show ?thesis using r by simp
qed

lemma strip_none:
  "extractCursorPos other query = None \<or> is_goto_line other query \<Longrightarrow>
   strip_cursor_pos other query = query"
  by (auto simp: strip_cursor_pos_def is_goto_line_def split: option.splits)


text \<open>
  C5. \<open>_doSearchFileList\<close> searches with the query from which a line and column part that
  is not local has been removed: for a query without line terminators that part is the
  whole rest of the query from its first \<open>:\<close> on, so the search string is what precedes
  that \<open>:\<close>. It keeps the files of \<open>fileList\<close>, in order, whose project-relative full
  path the matcher accepts for that string, each result carrying the file's name as
  \<open>label\<close>, its \<open>fullPath\<close> and the name without extension, and returns that list as
  sorted by \<open>StringMatch.multiFieldSort\<close> with \<open>matchGoodness\<close> at 0,
  \<open>filenameWithoutExtension\<close> at 1, \<open>label\<close> at 2 and \<open>fullPath\<close> at 3.
\<close>

theorem doSearchFileList_result:
  fixes env :: "('o, 'r, 'm) env"
  assumes files: "fileList w = Some files"
    and stripped: "q = strip_cursor_pos (toNumber_other env) query"
  shows
    "doSearchFileList env w query matcher =
       multiFieldSort env
         [(''matchGoodness'', 0), (''filenameWithoutExtension'', 1), (''label'', 2),
          (''fullPath'', 3)]
         (List.map_filter
            (\<lambda>fileInfo.
               map_option
                 (\<lambda>searchResult.
                    \<lparr>sr_match = searchResult, sr_label = file_name fileInfo,
                     sr_fullPath = file_fullPath fileInfo,
                     sr_filenameWithoutExtension = filenameFromPath (file_name fileInfo) False\<rparr>)
                 (matcher_match env matcher
                    (makeProjectRelativeIfPossible env (file_fullPath fileInfo)) q))
            files) \<and>
     (\<forall>cursorPos.
        extractCursorPos (toNumber_other env) query = Some cursorPos \<and>
        \<not> cp_local cursorPos \<and> list_all (\<lambda>c. \<not> is_line_terminator c) query \<longrightarrow>
        query = q @ cp_query cursorPos \<and> q = takeWhile (\<lambda>c. c \<noteq> CHR '':'') query) \<and>
     (extractCursorPos (toNumber_other env) query = None \<or>
      is_goto_line (toNumber_other env) query \<longrightarrow> q = query)"
proof -
  have fr: "file_result env matcher q =
      (\<lambda>fileInfo.
         map_option
           (\<lambda>searchResult.
              \<lparr>sr_match = searchResult, sr_label = file_name fileInfo,
               sr_fullPath = file_fullPath fileInfo,
               sr_filenameWithoutExtension = filenameFromPath (file_name fileInfo) False\<rparr>)
           (matcher_match env matcher
              (makeProjectRelativeIfPossible env (file_fullPath fileInfo)) q))"
    by (rule ext) (simp add: file_result_def split: option.splits)
  have a: "doSearchFileList env w query matcher =
      multiFieldSort env sort_fields (List.map_filter (file_result env matcher q) files)"
    by (simp add: doSearchFileList_def jq_map_def files stripped)
  have b: "query = q @ cp_query cursorPos \<and> q = takeWhile (\<lambda>c. c \<noteq> CHR '':'') query"
    if "extractCursorPos (toNumber_other env) query = Some cursorPos"
      and "\<not> cp_local cursorPos" and "list_all (\<lambda>c. \<not> is_line_terminator c) query"
    for cursorPos
    using strip_suffix [OF that] stripped by simp
  have c: "q = query"
    if "extractCursorPos (toNumber_other env) query = None \<or>
        is_goto_line (toNumber_other env) query"
    using strip_none [OF that] stripped by simp
  show ?thesis
    using a b c unfolding fr sort_fields_def by blast
qed

lemma sample_name: "filenameFromPath ''main.js'' False = ''main''"
  by (simp add: filenameFromPath_def lastIndexOf_def slice_def clamp_index_def)

theorem doSearchFileList_result_witness:
  "fileList sample_world =
     Some [\<lparr>file_fullPath = ''/p/main.js'', file_name = ''main.js''\<rparr>,
           \<lparr>file_fullPath = ''/p/README'', file_name = ''README''\<rparr>] \<and>
   ''main'' = strip_cursor_pos (toNumber_other sample_env) ''main:12'' \<and>
   extractCursorPos (toNumber_other sample_env) ''main:12'' =
     Some \<lparr>cp_query = '':12'', cp_local = False, cp_line = Num 11, cp_ch = Num 0\<rparr> \<and>
   doSearchFileList sample_env sample_world ''main:12'' 0 =
     [\<lparr>sr_match = 7, sr_label = ''main.js'', sr_fullPath = ''/p/main.js'',
       sr_filenameWithoutExtension = ''main''\<rparr>]"
proof -
  have files: "fileList sample_world =
     Some [\<lparr>file_fullPath = ''/p/main.js'', file_name = ''main.js''\<rparr>,
           \<lparr>file_fullPath = ''/p/README'', file_name = ''README''\<rparr>]"
    by (simp add: sample_world_def)
  have cp: "extractCursorPos (toNumber_other sample_env) ''main:12'' =
     Some \<lparr>cp_query = '':12'', cp_local = False, cp_line = Num 11, cp_ch = Num 0\<rparr>"
    by (simp add: cursor_simps sample_env_def)
  have q: "''main'' = strip_cursor_pos (toNumber_other sample_env) ''main:12''"
    by (simp add: strip_cursor_pos_def cp)
  have r: "doSearchFileList sample_env sample_world ''main:12'' 0 =
     [\<lparr>sr_match = 7, sr_label = ''main.js'', sr_fullPath = ''/p/main.js'',
       sr_filenameWithoutExtension = ''main''\<rparr>]"
    using doSearchFileList_result [OF files q, of 0, THEN conjunct1]
    by (simp add: List.map_filter_def sample_env_def sample_name)
  show ?thesis
    using files q [symmetric] cp r by simp
qed

subsection \<open>C6 and C7: searching while the file list loads\<close>

lemma doSearchFileList_fileList:
  "fileList w' = fileList w \<Longrightarrow> doSearchFileList env w' query matcher = doSearchFileList env w query matcher"
  by (simp add: doSearchFileList_def)

lemma searchFileList_sync:
  assumes "fileList w = Some files"
  shows "searchFileList env query matcher w =
         Inr (ResultList (doSearchFileList env w query matcher), w)"
  using assms by (simp add: searchFileList_def)

lemma searchFileList_not_sync:
  assumes "fileList w = None"
  shows "searchFileList env query matcher w \<noteq> Inr (ResultList rs, w')"
  using assms
  by (auto simp: searchFileList_def Let_def new_promise_def split: option.splits sum.splits)

lemma run_callbacks_append:
  "run_callbacks env v (xs @ ys) w =
     (case run_callbacks env v xs w of
        Inl e \<Rightarrow> Inl e
      | Inr (w1, fx1) \<Rightarrow>
          (case run_callbacks env v ys w1 of
             Inl e \<Rightarrow> Inl e
           | Inr (w2, fx2) \<Rightarrow> Inr (w2, fx1 @ fx2)))"
  by (induction xs arbitrary: w) (auto split: sum.splits)

lemma settle_other:
  "length (promises (settle r v w)) = length (promises w) \<and>
   (k \<noteq> r \<longrightarrow> promises (settle r v w) ! k = promises w ! k)"
  by (simp add: settle_def)

lemma run_search_callbacks:
  assumes "list_all (search_callback n) cbs"
  shows "\<exists>w'. run_callbacks env v cbs w = Inr (w', []) \<and>
           fileList w' = fileList w \<and> fileListPromise w' = fileListPromise w \<and>
           length (promises w') = length (promises w) \<and>
           (\<forall>k\<ge>n. promises w' ! k = promises w ! k)"
  using assms
proof (induction cbs arbitrary: w)
  case Nil
  then show ?case by simp
next
  case (Cons cb cbs)
  then obtain query matcher r where cb: "cb = SearchAgain query matcher r" and r: "r < n"
    by (auto simp: search_callback_def split: callback.splits)
  let ?w1 = "settle r (Results (doSearchFileList env w query matcher)) w"
  have one: "run_callback env v cb w = Inr (?w1, [])"
    by (simp add: run_callback_def cb searchAgain_def)
  obtain w' where rest: "run_callbacks env v cbs ?w1 = Inr (w', [])"
    "fileList w' = fileList ?w1" "fileListPromise w' = fileListPromise ?w1"
    "length (promises w') = length (promises ?w1)"
    "\<forall>k\<ge>n. promises w' ! k = promises ?w1 ! k"
    using Cons.IH [of ?w1] Cons.prems by auto
  have "\<forall>k\<ge>n. promises ?w1 ! k = promises w ! k"
    using settle_other [of r _ w] r by auto
  then show ?case
    using one rest settle_other [of r "Results (doSearchFileList env w query matcher)" w]
    by (simp add: settle_frame)
qed


lemma awaiting_callbacks:
  assumes "awaiting_files w p"
  obtains matcher cbs where "callbacks (promises w ! p) = FileListLoaded matcher # cbs"
    and "list_all (search_callback (length (promises w))) cbs"
  using assms
  by (auto simp: awaiting_files_def split: list.splits callback.splits)

lemma search_callback_mono: "search_callback n cb \<Longrightarrow> search_callback (Suc n) cb"
  by (auto simp: search_callback_def split: callback.splits)

lemma searchFileList_async:
  assumes "awaiting_files w p"
  obtains w1 where
    "searchFileList env query matcher w = Inr (ResultPromise (length (promises w)), w1)"
    "awaiting_files w1 p" "length (promises w1) = Suc (length (promises w))"
    "status (promises w1 ! length (promises w)) = Pending"
    "callbacks (promises w1 ! p) =
       callbacks (promises w ! p) @ [SearchAgain query matcher (length (promises w))]"
proof -
  let ?n = "length (promises w)"
  let ?wa = "w\<lparr>promises := promises w @ [\<lparr>status = Pending, callbacks = []\<rparr>]\<rparr>"
  let ?w1 = "add_callback p (SearchAgain query matcher ?n) ?wa"
  have a: "fileList w = None" "fileListPromise w = Some p" "p < ?n"
    "status (promises w ! p) = Pending"
    using assms by (simp_all add: awaiting_files_def)
  obtain fm cbs where cbs: "callbacks (promises w ! p) = FileListLoaded fm # cbs"
    "list_all (search_callback ?n) cbs"
    using assms by (rule awaiting_callbacks)
  have st: "promise_status ?wa p = Pending"
    using a(3,4) by (simp add: promise_status_def nth_append)
  have res: "searchFileList env query matcher w = Inr (ResultPromise ?n, ?w1)"
    using a(1,2) st by (simp add: searchFileList_def new_promise_def done_with_def)
  have pr: "promises ?w1 =
      (promises w @ [\<lparr>status = Pending, callbacks = []\<rparr>])
        [p := (promises w ! p)\<lparr>callbacks :=
                 callbacks (promises w ! p) @ [SearchAgain query matcher ?n]\<rparr>]"
    using a(3) by (simp add: add_callback_def nth_append)
  have len: "length (promises ?w1) = Suc ?n"
    by (simp add: pr)
  have atp: "promises ?w1 ! p =
      (promises w ! p)\<lparr>callbacks := callbacks (promises w ! p) @ [SearchAgain query matcher ?n]\<rparr>"
    using a(3) by (simp add: pr)
  have atn: "promises ?w1 ! ?n = \<lparr>status = Pending, callbacks = []\<rparr>"
    using a(3) by (simp add: pr)
  have "list_all (search_callback (Suc ?n)) cbs"
    using cbs(2) by (auto simp: list_all_iff intro: search_callback_mono)
  then have all: "list_all (search_callback (Suc ?n)) (cbs @ [SearchAgain query matcher ?n])"
    by (simp add: search_callback_def)
  have aw: "awaiting_files ?w1 p"
    using a cbs(1) all
    by (simp add: awaiting_files_def atp len add_callback_frame)
  show ?thesis
  proof (rule that [of ?w1])
    show "searchFileList env query matcher w = Inr (ResultPromise ?n, ?w1)" by (rule res)
    show "awaiting_files ?w1 p" by (rule aw)
    show "length (promises ?w1) = Suc ?n" by (rule len)
    show "status (promises ?w1 ! ?n) = Pending" by (simp add: atn)
    show "callbacks (promises ?w1 ! p) =
        callbacks (promises w ! p) @ [SearchAgain query matcher ?n]"
      by (simp add: atp)
  qed
qed

lemma resolve_awaited:
  fixes w :: "('o, 'r, 'm) world"
  assumes p: "p < length (promises w)" "status (promises w ! p) = Pending"
    and cb: "callbacks (promises w ! p) =
               FileListLoaded fm # mid @ [SearchAgain query matcher n]"
    and mid: "list_all (search_callback n) mid"
    and n: "n < length (promises w)" "n \<noteq> p" "status (promises w ! n) = Pending"
  shows "\<exists>w2. resolve_promise env p (Files files) w = Inr (w2, [SpinnerHide, MatcherReset fm]) \<and>
           fileList w2 = Some files \<and> fileListPromise w2 = None \<and>
           promise_status w2 n = Resolved (Results (doSearchFileList env w2 query matcher))"
proof -
  let ?v = "Files files :: 'm payload"
  let ?w0 = "w\<lparr>promises := (promises w)[p := \<lparr>status = Resolved ?v, callbacks = []\<rparr>]\<rparr>"
  let ?wA = "?w0\<lparr>fileList := Some files, fileListPromise := None\<rparr>"
  have start: "resolve_promise env p ?v w =
      run_callbacks env ?v (FileListLoaded fm # mid @ [SearchAgain query matcher n]) ?w0"
    using p by (simp add: resolve_promise_def promise_status_def cb)
  have first: "run_callback env ?v (FileListLoaded fm) ?w0 =
      Inr (?wA, [SpinnerHide, MatcherReset fm])"
    by (simp add: run_callback_def fileListLoaded_def)
  obtain wB where wB: "run_callbacks env ?v mid ?wA = Inr (wB, [])"
    "fileList wB = fileList ?wA" "fileListPromise wB = fileListPromise ?wA"
    "length (promises wB) = length (promises ?wA)"
    "\<forall>k\<ge>n. promises wB ! k = promises ?wA ! k"
    using run_search_callbacks [OF mid, of env ?v ?wA] by blast
  let ?w2 = "settle n (Results (doSearchFileList env wB query matcher)) wB"
  have last: "run_callbacks env ?v [SearchAgain query matcher n] wB = Inr (?w2, [])"
    by (simp add: run_callback_def searchAgain_def)
  have run: "run_callbacks env ?v (FileListLoaded fm # mid @ [SearchAgain query matcher n]) ?w0 =
      Inr (?w2, [SpinnerHide, MatcherReset fm])"
    using first wB(1) last by (simp add: run_callbacks_append)
  have "promises wB ! n = promises w ! n"
    using wB(5) n(2) by simp
  then have pend: "n < length (promises wB) \<and> status (promises wB ! n) = Pending"
    using wB(4) n by simp
  then have st: "promise_status ?w2 n =
      Resolved (Results (doSearchFileList env wB query matcher))"
    by (simp add: promise_status_def settle_def)
  have fl: "fileList ?w2 = Some files" "fileListPromise ?w2 = None"
    using wB(2,3) by (simp_all add: settle_frame)
  have "doSearchFileList env ?w2 query matcher = doSearchFileList env wB query matcher"
    by (rule doSearchFileList_fileList) (simp add: settle_frame)
  then show ?thesis
    using start run st fl by auto
qed


lemma searchFileList_resolved:
  assumes "fileList w = None" and "fileListPromise w = Some p"
    and "promise_status w p = Resolved v"
  shows "\<exists>w1. searchFileList env query matcher w =
            Inr (ResultPromise (length (promises w)), w1) \<and>
          promise_status w1 (length (promises w)) =
            Resolved (Results (doSearchFileList env w1 query matcher))"
proof -
  let ?n = "length (promises w)"
  let ?wa = "w\<lparr>promises := promises w @ [\<lparr>status = Pending, callbacks = []\<rparr>]\<rparr>"
  let ?w1 = "settle ?n (Results (doSearchFileList env ?wa query matcher)) ?wa"
  have p: "p < ?n" "status (promises w ! p) = Resolved v"
    using assms(3) by (auto simp: promise_status_def split: if_splits)
  then have "promise_status ?wa p = Resolved v"
    by (simp add: promise_status_def nth_append)
  then have res: "searchFileList env query matcher w = Inr (ResultPromise ?n, ?w1)"
    using assms(1,2) by (simp add: searchFileList_def new_promise_def done_with_def searchAgain_def)
  have st: "promise_status ?w1 ?n =
      Resolved (Results (doSearchFileList env ?wa query matcher))"
    by (simp add: promise_status_def settle_def)
  have "doSearchFileList env ?w1 query matcher = doSearchFileList env ?wa query matcher"
    by (rule doSearchFileList_fileList) (simp add: settle_frame)
  then show ?thesis using res st by auto
qed

lemma resolve_awaiting:
  fixes w :: "('o, 'r, 'm) world"
  assumes "awaiting_files w p"
  shows "\<exists>w2 fx. resolve_promise env p (Files files) w = Inr (w2, fx) \<and>
           fileList w2 = Some files \<and> fileListPromise w2 = None"
proof -
  let ?v = "Files files :: 'm payload"
  let ?w0 = "w\<lparr>promises := (promises w)[p := \<lparr>status = Resolved ?v, callbacks = []\<rparr>]\<rparr>"
  let ?wA = "?w0\<lparr>fileList := Some files, fileListPromise := None\<rparr>"
  have a: "p < length (promises w)" "status (promises w ! p) = Pending"
    using assms by (simp_all add: awaiting_files_def)
  obtain fm cbs where cbs: "callbacks (promises w ! p) = FileListLoaded fm # cbs"
    "list_all (search_callback (length (promises w))) cbs"
    using assms by (rule awaiting_callbacks)
  have start: "resolve_promise env p ?v w = run_callbacks env ?v (FileListLoaded fm # cbs) ?w0"
    using a by (simp add: resolve_promise_def promise_status_def cbs(1))
  have first: "run_callback env ?v (FileListLoaded fm) ?w0 =
      Inr (?wA, [SpinnerHide, MatcherReset fm])"
    by (simp add: run_callback_def fileListLoaded_def)
  obtain wB where wB: "run_callbacks env ?v cbs ?wA = Inr (wB, [])"
    "fileList wB = fileList ?wA" "fileListPromise wB = fileListPromise ?wA"
    using run_search_callbacks [OF cbs(2), of env ?v ?wA] by blast
  show ?thesis
    using start first wB by simp
qed

lemma showDialog_pending:
  assumes "\<not> isOpen d" and "getAllFiles env = Pending"
    and "showDialog env prefix initialString d w = Inr (d1, w1, fx)"
  shows "fileListPromise w1 = Some (length (promises w)) \<and> fileList w1 = fileList w \<and>
         promises w1 =
           promises w @ [\<lparr>status = Pending, callbacks = [FileListLoaded (filenameMatcher d)]\<rparr>]"
  using assms
  by (auto simp: showDialog_def new_promise_def done_with_def promise_status_def
      add_callback_def Let_def split: option.splits sum.splits if_splits)

lemma showDialog_loaded:
  assumes "\<not> isOpen d" and "getAllFiles env = Resolved (Files files)"
    and "showDialog env prefix initialString d w = Inr (d1, w1, fx)"
  shows "fileList w1 = Some files"
  using assms
  by (auto simp: showDialog_def new_promise_def done_with_def promise_status_def
      fileListLoaded_def Let_def split: option.splits sum.splits if_splits)

lemma showDialog_awaiting:
  assumes "\<not> isOpen d" and "getAllFiles env = Pending"
    and "showDialog env prefix initialString d (projectOpen w) = Inr (d1, w1, fx)"
  shows "awaiting_files w1 (length (promises w))"
  using showDialog_pending [OF assms]
  by (simp add: awaiting_files_def projectOpen_def)


text \<open>
  The search while a load is pending. With \<open>fileList\<close> populated,
  \<open>searchFileList(query, matcher)\<close> returns \<open>_doSearchFileList(query, matcher)\<close> at once.
  With \<open>fileList\<close> empty and the file list promise pending it returns a new promise,
  still pending; when the file list promise resolves with the files, that promise is
  resolved with \<open>_doSearchFileList(query, matcher)\<close> as computed on the loaded list,
  which is the very list a call of \<open>searchFileList\<close> made afterwards returns. If the
  file list promise had already resolved, the new promise is resolved straight away
  with \<open>_doSearchFileList(query, matcher)\<close> as computed in the state of the call, in
  which \<open>fileList\<close> is empty; that case and the case of no file list promise at all
  are evaluated at the end of this section.
\<close>

theorem searchFileList_deferred:
  fixes env env' :: "('o, 'r, 'm) env"
  shows
    "(\<forall>files. fileList w = Some files \<longrightarrow>
        searchFileList env query matcher w =
          Inr (ResultList (doSearchFileList env w query matcher), w)) \<and>
     (awaiting_files w p \<longrightarrow>
        (\<exists>w1. searchFileList env query matcher w =
                 Inr (ResultPromise (length (promises w)), w1) \<and>
               promise_status w1 (length (promises w)) = Pending \<and>
               (\<forall>files. \<exists>w2 fx.
                  resolve_promise env' p (Files files) w1 = Inr (w2, fx) \<and>
                  fileList w2 = Some files \<and>
                  promise_status w2 (length (promises w)) =
                    Resolved (Results (doSearchFileList env' w2 query matcher)) \<and>
                  searchFileList env' query matcher w2 =
                    Inr (ResultList (doSearchFileList env' w2 query matcher), w2)))) \<and>
     (\<forall>v. fileList w = None \<and> fileListPromise w = Some p \<and>
          promise_status w p = Resolved v \<longrightarrow>
        (\<exists>w1. searchFileList env query matcher w =
                 Inr (ResultPromise (length (promises w)), w1) \<and>
               promise_status w1 (length (promises w)) =
                 Resolved (Results (doSearchFileList env w1 query matcher))))"
proof -
  let ?n = "length (promises w)"
  have sync: "searchFileList env query matcher w =
      Inr (ResultList (doSearchFileList env w query matcher), w)"
    if "fileList w = Some files" for files
    using that by (rule searchFileList_sync)
  have deferred: "\<exists>w1. searchFileList env query matcher w = Inr (ResultPromise ?n, w1) \<and>
      promise_status w1 ?n = Pending \<and>
      (\<forall>files. \<exists>w2 fx.
         resolve_promise env' p (Files files) w1 = Inr (w2, fx) \<and>
         fileList w2 = Some files \<and>
         promise_status w2 ?n =
           Resolved (Results (doSearchFileList env' w2 query matcher)) \<and>
         searchFileList env' query matcher w2 =
           Inr (ResultList (doSearchFileList env' w2 query matcher), w2))"
    if aw: "awaiting_files w p"
  proof -
    obtain fm cbs where cbs: "callbacks (promises w ! p) = FileListLoaded fm # cbs"
      "list_all (search_callback ?n) cbs"
      using aw by (rule awaiting_callbacks)
    have p: "p < ?n" using aw by (simp add: awaiting_files_def)
    obtain w1 where w1: "searchFileList env query matcher w = Inr (ResultPromise ?n, w1)"
      "awaiting_files w1 p" "length (promises w1) = Suc ?n"
      "status (promises w1 ! ?n) = Pending"
      "callbacks (promises w1 ! p) =
         callbacks (promises w ! p) @ [SearchAgain query matcher ?n]"
      by (rule searchFileList_async [OF aw, where env = env and query = query
            and matcher = matcher])
    have p1: "p < length (promises w1)" "status (promises w1 ! p) = Pending"
      using w1(2) by (simp_all add: awaiting_files_def)
    have cb1: "callbacks (promises w1 ! p) =
        FileListLoaded fm # cbs @ [SearchAgain query matcher ?n]"
      using w1(5) cbs(1) by simp
    have pend: "promise_status w1 ?n = Pending"
      using w1(3,4) by (simp add: promise_status_def)
    have after: "\<exists>w2 fx.
        resolve_promise env' p (Files files) w1 = Inr (w2, fx) \<and>
        fileList w2 = Some files \<and>
        promise_status w2 ?n =
          Resolved (Results (doSearchFileList env' w2 query matcher)) \<and>
        searchFileList env' query matcher w2 =
          Inr (ResultList (doSearchFileList env' w2 query matcher), w2)" for files
    proof -
      obtain w2 where w2:
        "resolve_promise env' p (Files files) w1 = Inr (w2, [SpinnerHide, MatcherReset fm])"
        "fileList w2 = Some files"
        "promise_status w2 ?n = Resolved (Results (doSearchFileList env' w2 query matcher))"
        using resolve_awaited [OF p1 cb1 cbs(2), of env' files] w1(3,4) p by auto
      show ?thesis
        using w2 searchFileList_sync [OF w2(2), of env' query matcher] by blast
    qed
    show ?thesis using w1(1) pend after by blast
  qed
  have resolved: "\<exists>w1. searchFileList env query matcher w = Inr (ResultPromise ?n, w1) \<and>
      promise_status w1 ?n = Resolved (Results (doSearchFileList env w1 query matcher))"
    if "fileList w = None \<and> fileListPromise w = Some p \<and> promise_status w p = Resolved v"
    for v
    using that searchFileList_resolved [of w p v env query matcher] by blast
  show ?thesis using sync deferred resolved by blast
qed

text \<open>
  A project switch before the dialog is shown. The handler of \<open>projectOpen\<close> empties
  \<open>fileList\<close> and nothing else. While \<open>fileList\<close> is empty no call of
  \<open>searchFileList\<close> returns a list. After the next \<open>showDialog\<close> has asked for the files
  and while that request is pending, every call returns a promise that waits for it and
  leaves it pending; once it resolves with the files, or if \<open>getAllFiles\<close> answers at
  once, \<open>fileList\<close> holds them and \<open>searchFileList\<close> returns its list directly again.
  A switch while the dialog is shown is evaluated at the end of this section.
\<close>

theorem projectOpen_invalidates:
  fixes env :: "('o, 'r, 'm) env"
  shows
    "projectOpen w = w\<lparr>fileList := None\<rparr> \<and>
     (\<forall>rs w'. fileList w = None \<longrightarrow>
        searchFileList env query matcher w \<noteq> Inr (ResultList rs, w')) \<and>
     (\<forall>d1 w1 fx.
        \<not> isOpen d \<and> getAllFiles env = Pending \<and>
        showDialog env prefix initialString d (projectOpen w) = Inr (d1, w1, fx) \<longrightarrow>
        awaiting_files w1 (length (promises w))) \<and>
     (awaiting_files w p \<longrightarrow>
        (\<exists>w1. searchFileList env query matcher w =
                 Inr (ResultPromise (length (promises w)), w1) \<and>
               awaiting_files w1 p)) \<and>
     (awaiting_files w p \<longrightarrow>
        (\<exists>w2 fx. resolve_promise env p (Files files) w = Inr (w2, fx) \<and>
                  fileList w2 = Some files \<and>
                  searchFileList env query matcher w2 =
                    Inr (ResultList (doSearchFileList env w2 query matcher), w2))) \<and>
     (\<forall>d1 w1 fx.
        \<not> isOpen d \<and> getAllFiles env = Resolved (Files files) \<and>
        showDialog env prefix initialString d (projectOpen w) = Inr (d1, w1, fx) \<longrightarrow>
        fileList w1 = Some files)"
proof -
  have a: "projectOpen w = w\<lparr>fileList := None\<rparr>"
    by (simp add: projectOpen_def)
  have b: "searchFileList env query matcher w \<noteq> Inr (ResultList rs, w')"
    if "fileList w = None" for rs w'
    using that by (rule searchFileList_not_sync)
  have c: "awaiting_files w1 (length (promises w))"
    if "\<not> isOpen d \<and> getAllFiles env = Pending \<and>
        showDialog env prefix initialString d (projectOpen w) = Inr (d1, w1, fx)"
    for d1 w1 fx
    using that showDialog_awaiting [of d env prefix initialString w d1 w1 fx] by blast
  have d: "\<exists>w1. searchFileList env query matcher w =
        Inr (ResultPromise (length (promises w)), w1) \<and> awaiting_files w1 p"
    if aw: "awaiting_files w p"
  proof -
    obtain w1 where "searchFileList env query matcher w =
        Inr (ResultPromise (length (promises w)), w1)" "awaiting_files w1 p"
      by (rule searchFileList_async [OF aw, where env = env and query = query
            and matcher = matcher])
    then show ?thesis by (intro exI conjI)
  qed
  have e: "\<exists>w2 fx. resolve_promise env p (Files files) w = Inr (w2, fx) \<and>
        fileList w2 = Some files \<and>
        searchFileList env query matcher w2 =
          Inr (ResultList (doSearchFileList env w2 query matcher), w2)"
    if aw: "awaiting_files w p"
  proof -
    obtain w2 fx where w2: "resolve_promise env p (Files files) w = Inr (w2, fx)"
      "fileList w2 = Some files"
      using resolve_awaiting [OF aw, of env files] by blast
    show ?thesis
      using w2 searchFileList_sync [OF w2(2), of env query matcher] by blast
  qed
  have f: "fileList w1 = Some files"
    if "\<not> isOpen d \<and> getAllFiles env = Resolved (Files files) \<and>
        showDialog env prefix initialString d (projectOpen w) = Inr (d1, w1, fx)"
    for d1 w1 fx
    using that showDialog_loaded [of d env files prefix initialString "projectOpen w" d1 w1 fx]
    by blast
  show ?thesis using a b c d e f by blast
qed


lemma sample_search:
  fixes w :: "(unit, string list, nat) world"
  assumes "fileList w = Some sample_files"
  shows "doSearchFileList sample_env w ''main'' 0 =
         [\<lparr>sr_match = 7, sr_label = ''main.js'', sr_fullPath = ''/p/main.js'',
           sr_filenameWithoutExtension = ''main''\<rparr>]"
proof -
  have q: "strip_cursor_pos (toNumber_other sample_env) ''main'' = ''main''"
    by (simp add: strip_cursor_pos_def cursor_simps)
  have "doSearchFileList sample_env w ''main'' 0 =
      multiFieldSort sample_env sort_fields
        (List.map_filter (file_result sample_env 0 ''main'') sample_files)"
    by (simp add: doSearchFileList_def q assms jq_map_def)
  also have "\<dots> = [\<lparr>sr_match = 7, sr_label = ''main.js'', sr_fullPath = ''/p/main.js'',
           sr_filenameWithoutExtension = ''main''\<rparr>]"
    by (simp add: sample_files_def List.map_filter_def file_result_def sample_env_def
        sample_name)
  finally show ?thesis .
qed

lemma sample_awaiting: "awaiting_files sample_loading 0"
  by (simp add: awaiting_files_def sample_loading_def)

theorem searchFileList_deferred_witness:
  "awaiting_files sample_loading 0 \<and>
   searchFileList sample_env ''main'' 0 sample_loading =
     Inr (ResultPromise 1,
          sample_loading\<lparr>promises :=
            [\<lparr>status = Pending,
              callbacks = [FileListLoaded 0, SearchAgain ''main'' 0 1]\<rparr>,
             \<lparr>status = Pending, callbacks = []\<rparr>]\<rparr>) \<and>
   (\<exists>w2 fx.
      resolve_promise sample_env 0 (Files sample_files)
        (sample_loading\<lparr>promises :=
           [\<lparr>status = Pending,
             callbacks = [FileListLoaded 0, SearchAgain ''main'' 0 1]\<rparr>,
            \<lparr>status = Pending, callbacks = []\<rparr>]\<rparr>) = Inr (w2, fx) \<and>
      fileList w2 = Some sample_files \<and>
      promise_status w2 1 =
        Resolved (Results
          [\<lparr>sr_match = 7, sr_label = ''main.js'', sr_fullPath = ''/p/main.js'',
            sr_filenameWithoutExtension = ''main''\<rparr>]) \<and>
      searchFileList sample_env ''main'' 0 w2 =
        Inr (ResultList
          [\<lparr>sr_match = 7, sr_label = ''main.js'', sr_fullPath = ''/p/main.js'',
            sr_filenameWithoutExtension = ''main''\<rparr>], w2))"
proof -
  let ?w1 = "sample_loading\<lparr>promises :=
            [\<lparr>status = Pending,
              callbacks = [FileListLoaded 0, SearchAgain ''main'' 0 1]\<rparr>,
             \<lparr>status = Pending, callbacks = []\<rparr>]\<rparr>"
  have n: "length (promises sample_loading) = 1"
    by (simp add: sample_loading_def)
  have one: "searchFileList sample_env ''main'' 0 sample_loading = Inr (ResultPromise 1, ?w1)"
    by (simp add: searchFileList_def new_promise_def done_with_def promise_status_def
        add_callback_def searchAgain_def sample_loading_def)
  obtain w1 where w1: "searchFileList sample_env ''main'' 0 sample_loading =
      Inr (ResultPromise (length (promises sample_loading)), w1)"
    and after: "\<forall>files. \<exists>w2 fx.
      resolve_promise sample_env 0 (Files files) w1 = Inr (w2, fx) \<and>
      fileList w2 = Some files \<and>
      promise_status w2 (length (promises sample_loading)) =
        Resolved (Results (doSearchFileList sample_env w2 ''main'' 0)) \<and>
      searchFileList sample_env ''main'' 0 w2 =
        Inr (ResultList (doSearchFileList sample_env w2 ''main'' 0), w2)"
    using searchFileList_deferred [where w = sample_loading and p = 0 and env = sample_env
        and env' = sample_env and query = "''main''" and matcher = 0,
        THEN conjunct2, THEN conjunct1, rule_format, OF sample_awaiting]
    by (elim exE conjE)
  have "w1 = ?w1" using w1 one by (simp add: n)
  then obtain w2 fx where w2:
    "resolve_promise sample_env 0 (Files sample_files) ?w1 = Inr (w2, fx)"
    "fileList w2 = Some sample_files"
    "promise_status w2 (length (promises sample_loading)) =
       Resolved (Results (doSearchFileList sample_env w2 ''main'' 0))"
    "searchFileList sample_env ''main'' 0 w2 =
       Inr (ResultList (doSearchFileList sample_env w2 ''main'' 0), w2)"
    using after by blast
  show ?thesis
    using sample_awaiting one w2 n sample_search [OF w2(2)] by auto
qed


theorem projectOpen_invalidates_witness:
  "projectOpen sample_world = sample_world\<lparr>fileList := None\<rparr> \<and>
   \<not> isOpen (sample_dialog\<lparr>isOpen := False\<rparr>) \<and> getAllFiles sample_env = Pending \<and>
   (\<exists>d1 w1 fx.
      showDialog sample_env (Some '':'') None (sample_dialog\<lparr>isOpen := False\<rparr>)
        (projectOpen sample_world) = Inr (d1, w1, fx) \<and>
      awaiting_files w1 0 \<and>
      (\<exists>w1'. searchFileList sample_env ''main'' 0 w1 = Inr (ResultPromise 1, w1') \<and>
             awaiting_files w1' 0) \<and>
      (\<exists>w2 fx2. resolve_promise sample_env 0 (Files sample_files) w1 = Inr (w2, fx2) \<and>
                fileList w2 = Some sample_files \<and>
                searchFileList sample_env ''main'' 0 w2 =
                  Inr (ResultList
                    [\<lparr>sr_match = 7, sr_label = ''main.js'', sr_fullPath = ''/p/main.js'',
                      sr_filenameWithoutExtension = ''main''\<rparr>], w2)))"
proof -
  let ?d = "sample_dialog\<lparr>isOpen := False\<rparr>"
  note t = projectOpen_invalidates [where w = sample_world and env = sample_env
      and d = ?d and prefix = "Some '':''" and initialString = None
      and query = "''main''" and matcher = 0 and files = sample_files]
  have closed: "\<not> isOpen ?d" by simp
  have pending: "getAllFiles sample_env = Pending" by (simp add: sample_env_def)
  have n: "length (promises sample_world) = 0" by (simp add: sample_world_def)
  obtain d1 w1 fx where sd:
    "showDialog sample_env (Some '':'') None ?d (projectOpen sample_world) = Inr (d1, w1, fx)"
    by (simp add: showDialog_def new_promise_def done_with_def promise_status_def
        sample_env_def Let_def)
  have aw: "awaiting_files w1 0"
    using t [THEN conjunct2, THEN conjunct2, THEN conjunct1, rule_format,
        OF conjI [OF closed conjI [OF pending sd]]] n by simp
  have len: "length (promises w1) = 1"
    using showDialog_pending [OF closed pending sd] by (simp add: projectOpen_def n)
  have search: "\<exists>w1'. searchFileList sample_env ''main'' 0 w1 = Inr (ResultPromise 1, w1') \<and>
      awaiting_files w1' 0"
    using projectOpen_invalidates [where w = w1 and p = 0 and env = sample_env
        and query = "''main''" and matcher = 0,
        THEN conjunct2, THEN conjunct2, THEN conjunct2, THEN conjunct1, rule_format, OF aw]
      len by simp
  obtain w2 fx2 where w2: "resolve_promise sample_env 0 (Files sample_files) w1 = Inr (w2, fx2)"
    "fileList w2 = Some sample_files"
    "searchFileList sample_env ''main'' 0 w2 =
       Inr (ResultList (doSearchFileList sample_env w2 ''main'' 0), w2)"
    using projectOpen_invalidates [where w = w1 and p = 0 and env = sample_env
        and query = "''main''" and matcher = 0 and files = sample_files,
        THEN conjunct2, THEN conjunct2, THEN conjunct2, THEN conjunct2, THEN conjunct1,
        rule_format, OF aw]
    by (elim exE conjE)
  have final: "\<exists>w2 fx2. resolve_promise sample_env 0 (Files sample_files) w1 = Inr (w2, fx2) \<and>
      fileList w2 = Some sample_files \<and>
      searchFileList sample_env ''main'' 0 w2 =
        Inr (ResultList
          [\<lparr>sr_match = 7, sr_label = ''main.js'', sr_fullPath = ''/p/main.js'',
            sr_filenameWithoutExtension = ''main''\<rparr>], w2)"
    using w2 sample_search [OF w2(2)] by auto
  show ?thesis
    using t [THEN conjunct1] closed pending sd aw search final by blast
qed

text \<open>
  C6. Two states in which \<open>fileList\<close> is empty and no load is under way. After
  \<open>projectOpen\<close> on a state whose file list had loaded, \<open>fileListPromise\<close> is \<open>null\<close>, and
  \<open>searchFileList\<close> throws a \<open>TypeError\<close> at \<open>fileListPromise.done\<close>: it returns no
  promise. With \<open>fileList\<close> empty and \<open>fileListPromise\<close> a promise that resolved earlier,
  \<open>searchFileList\<close> returns a promise that is resolved before the call returns, with the
  empty list that \<open>_doSearchFileList\<close> computes without a file list; a call made with
  the same query and matcher once the files are loaded returns the entry for
  \<open>main.js\<close>. In neither state does the deferred path give what the later synchronous
  call gives.
\<close>

theorem searchFileList_without_load:
  "fileList (projectOpen sample_world) = None \<and>
   fileListPromise (projectOpen sample_world) = None \<and>
   searchFileList sample_env ''main'' 0 (projectOpen sample_world) = Inl TypeError \<and>
   searchFileList sample_env ''main'' 0
     (sample_world\<lparr>fileList := None, fileListPromise := Some 0,
                   promises := [\<lparr>status = Resolved (Files sample_files), callbacks = []\<rparr>]\<rparr>) =
     Inr (ResultPromise 1,
          sample_world\<lparr>fileList := None, fileListPromise := Some 0,
                        promises := [\<lparr>status = Resolved (Files sample_files), callbacks = []\<rparr>,
                                     \<lparr>status = Resolved (Results []), callbacks = []\<rparr>]\<rparr>) \<and>
   searchFileList sample_env ''main'' 0
     (sample_world\<lparr>fileList := Some sample_files, fileListPromise := None,
                   promises := [\<lparr>status = Resolved (Files sample_files), callbacks = []\<rparr>,
                                \<lparr>status = Resolved (Results []), callbacks = []\<rparr>]\<rparr>) =
     Inr (ResultList
            [\<lparr>sr_match = 7, sr_label = ''main.js'', sr_fullPath = ''/p/main.js'',
              sr_filenameWithoutExtension = ''main''\<rparr>],
          sample_world\<lparr>fileList := Some sample_files, fileListPromise := None,
                        promises := [\<lparr>status = Resolved (Files sample_files), callbacks = []\<rparr>,
                                     \<lparr>status = Resolved (Results []), callbacks = []\<rparr>]\<rparr>)"
proof -
  let ?stale = "sample_world\<lparr>fileList := None, fileListPromise := Some 0,
      promises := [\<lparr>status = Resolved (Files sample_files), callbacks = []\<rparr>]\<rparr>"
  let ?loaded = "sample_world\<lparr>fileList := Some sample_files, fileListPromise := None,
      promises := [\<lparr>status = Resolved (Files sample_files), callbacks = []\<rparr>,
                   \<lparr>status = Resolved (Results []), callbacks = []\<rparr>]\<rparr>"
  have a: "fileList (projectOpen sample_world) = None"
    "fileListPromise (projectOpen sample_world) = None"
    by (simp_all add: projectOpen_def sample_world_def)
  have b: "searchFileList sample_env ''main'' 0 (projectOpen sample_world) = Inl TypeError"
    using a by (simp add: searchFileList_def)
  have q: "strip_cursor_pos (toNumber_other sample_env) ''main'' = ''main''"
    by (simp add: strip_cursor_pos_def cursor_simps)
  have empty: "doSearchFileList sample_env w ''main'' 0 = []" if "fileList w = None"
    for w :: "(unit, string list, nat) world"
    using that by (simp add: doSearchFileList_def q jq_map_def sample_env_def)
  have c: "searchFileList sample_env ''main'' 0 ?stale =
     Inr (ResultPromise 1,
          sample_world\<lparr>fileList := None, fileListPromise := Some 0,
                        promises := [\<lparr>status = Resolved (Files sample_files), callbacks = []\<rparr>,
                                     \<lparr>status = Resolved (Results []), callbacks = []\<rparr>]\<rparr>)"
    by (simp add: searchFileList_def new_promise_def done_with_def promise_status_def
        searchAgain_def settle_def empty sample_world_def)
  have d: "searchFileList sample_env ''main'' 0 ?loaded =
     Inr (ResultList
            [\<lparr>sr_match = 7, sr_label = ''main.js'', sr_fullPath = ''/p/main.js'',
              sr_filenameWithoutExtension = ''main''\<rparr>], ?loaded)"
    using searchFileList_sync [of ?loaded sample_files sample_env "''main''" 0]
      sample_search [of ?loaded]
    by simp
  show ?thesis using a b c d by (intro conjI)
qed

text \<open>
  C7. A project switch while the dialog is shown. \<open>beginSearch\<close> on the module as loaded
  shows a dialog and asks for the files. In the first run the request is pending and
  then resolves with the files, which leaves \<open>fileList\<close> set and \<open>fileListPromise\<close>
  \<open>null\<close>; after \<open>projectOpen\<close> the query \<open>main\<close> makes \<open>_filterCallback\<close> throw a
  \<open>TypeError\<close>, so the call neither waits nor returns. In the second run
  \<open>getAllFiles\<close> answers at once, which leaves \<open>fileListPromise\<close> the resolved promise;
  after \<open>projectOpen\<close> the query \<open>main\<close> is answered with a promise already resolved
  with the empty list, and no callback is left on any promise: nothing waits for the
  files of the new project.
\<close>

theorem projectOpen_while_open:
  "beginSearch sample_env None None initial_world =
     Inr (sample_loading, [ModalBarOpen, SearchFieldFocus, SearchFieldSetText [] 0 0]) \<and>
   resolve_promise sample_env 0 (Files sample_files) sample_loading =
     Inr (sample_world\<lparr>promises := [\<lparr>status = Resolved (Files sample_files), callbacks = []\<rparr>]\<rparr>,
          [SpinnerHide, MatcherReset 0]) \<and>
   filterCallback sample_env ''main'' sample_dialog
     (projectOpen
        (sample_world\<lparr>promises :=
           [\<lparr>status = Resolved (Files sample_files), callbacks = []\<rparr>]\<rparr>)) = Inl TypeError \<and>
   beginSearch (sample_env\<lparr>getAllFiles := Resolved (Files sample_files)\<rparr>) None None
     initial_world =
     Inr (sample_world\<lparr>fileListPromise := Some 0,
            promises := [\<lparr>status = Resolved (Files sample_files), callbacks = []\<rparr>]\<rparr>,
          [ModalBarOpen, SpinnerHide, MatcherReset 0, SearchFieldFocus,
           SearchFieldSetText [] 0 0]) \<and>
   filterCallback (sample_env\<lparr>getAllFiles := Resolved (Files sample_files)\<rparr>) ''main''
     sample_dialog
     (projectOpen
        (sample_world\<lparr>fileListPromise := Some 0,
           promises := [\<lparr>status = Resolved (Files sample_files), callbacks = []\<rparr>]\<rparr>)) =
     Inr (ResultPromise 1, sample_dialog,
          sample_world\<lparr>fileList := None, fileListPromise := Some 0,
            promises := [\<lparr>status = Resolved (Files sample_files), callbacks = []\<rparr>,
                         \<lparr>status = Resolved (Results []), callbacks = []\<rparr>]\<rparr>,
          [DialogLabel NoLabel])"
proof -
  let ?env = "sample_env\<lparr>getAllFiles := Resolved (Files sample_files)\<rparr>"
  let ?loaded = "sample_world\<lparr>promises :=
      [\<lparr>status = Resolved (Files sample_files), callbacks = []\<rparr>]\<rparr>"
  let ?stale = "sample_world\<lparr>fileListPromise := Some 0,
      promises := [\<lparr>status = Resolved (Files sample_files), callbacks = []\<rparr>]\<rparr>"
  have a: "beginSearch sample_env None None initial_world =
      Inr (sample_loading, [ModalBarOpen, SearchFieldFocus, SearchFieldSetText [] 0 0])"
    by (simp add: beginSearch_def createDialog_def new_dialog_def showDialog_def
        new_promise_def done_with_def promise_status_def add_callback_def
        setSearchFieldValue_def initial_world_def sample_env_def sample_loading_def
        sample_dialog_def Let_def)
  have b: "resolve_promise sample_env 0 (Files sample_files) sample_loading =
      Inr (?loaded, [SpinnerHide, MatcherReset 0])"
    by (simp add: resolve_promise_def promise_status_def run_callback_def fileListLoaded_def
        sample_loading_def sample_world_def sample_files_def)
  have q: "\<not> is_goto_line (toNumber_other ?env) ''main''"
    "find (\<lambda>plugin. plugin_match plugin ''main'') (getPluginsForCurrentContext ?env) = None"
    "\<not> is_goto_line (toNumber_other sample_env) ''main''"
    "find (\<lambda>plugin. plugin_match plugin ''main'') (getPluginsForCurrentContext sample_env) = None"
    by (simp_all add: is_goto_line_def cursor_simps getPluginsForCurrentContext_def
        sample_env_def sample_plugin_def)
  have s: "strip_cursor_pos (toNumber_other ?env) ''main'' = ''main''"
    by (simp add: strip_cursor_pos_def cursor_simps)
  have m: "multiFieldSort sample_env fields [] = []" for fields
    by (simp add: sample_env_def)
  have c: "filterCallback sample_env ''main'' sample_dialog (projectOpen ?loaded) = Inl TypeError"
    unfolding filterCallback_def Let_def
    by (simp add: q searchFileList_def projectOpen_def sample_world_def)
  have d: "beginSearch ?env None None initial_world =
      Inr (?stale, [ModalBarOpen, SpinnerHide, MatcherReset 0, SearchFieldFocus,
           SearchFieldSetText [] 0 0])"
    by (simp add: beginSearch_def createDialog_def new_dialog_def showDialog_def
        new_promise_def done_with_def promise_status_def fileListLoaded_def
        setSearchFieldValue_def initial_world_def sample_env_def sample_world_def
        sample_files_def sample_dialog_def Let_def)
  have e: "filterCallback ?env ''main'' sample_dialog (projectOpen ?stale) =
      Inr (ResultPromise 1, sample_dialog,
          sample_world\<lparr>fileList := None, fileListPromise := Some 0,
            promises := [\<lparr>status = Resolved (Files sample_files), callbacks = []\<rparr>,
                         \<lparr>status = Resolved (Results []), callbacks = []\<rparr>]\<rparr>,
          [DialogLabel NoLabel])"
    unfolding filterCallback_def Let_def
    by (simp add: q s searchFileList_def projectOpen_def new_promise_def done_with_def
        promise_status_def searchAgain_def settle_def doSearchFileList_def jq_map_def
        updateDialogLabel_def sample_world_def sample_dialog_def m)
  show ?thesis using a b c d e by (intro conjI)
qed

subsection \<open>C8: the selections and scroll position of the editor\<close>

lemma filterCallback_dialog:
  assumes "filterCallback env query d w = Inr (res, d1, w1, fx)"
  shows "origSelections d1 = origSelections d \<and> origScrollPos d1 = origScrollPos d \<and>
         origDocPath d1 = origDocPath d \<and> isOpen d1 = isOpen d \<and>
         closePromise d1 = closePromise d \<and> filenameMatcher d1 = filenameMatcher d"
proof (cases "is_goto_line (toNumber_other env) query \<or> query = '':''")
  case True
  then show ?thesis
    using filterCallback_special [OF True, of d w] assms by auto
next
  case False
  then have ng: "\<not> is_goto_line (toNumber_other env) query" and nc: "query \<noteq> '':''"
    by simp_all
  show ?thesis
  proof (cases "find (\<lambda>plugin. plugin_match plugin query) (getPluginsForCurrentContext env)")
    case None
    then show ?thesis
      using filterCallback_default [OF ng nc None, of d w] assms
      by (auto split: sum.splits)
  next
    case (Some plugin)
    then show ?thesis
      using filterCallback_plugin [OF ng nc Some, of d w] assms
      by (cases "lookup_matcher (matchers d) (plugin_name plugin)") auto
  qed
qed

lemma filterCallbacks_dialog:
  "filterCallbacks steps d w = Inr (d2, w2) \<Longrightarrow>
   origSelections d2 = origSelections d \<and> origScrollPos d2 = origScrollPos d \<and>
   origDocPath d2 = origDocPath d \<and> isOpen d2 = isOpen d \<and>
   closePromise d2 = closePromise d \<and> filenameMatcher d2 = filenameMatcher d"
proof (induction steps arbitrary: d w)
  case Nil
  then show ?case by simp
next
  case (Cons step steps)
  obtain env query where step: "step = (env, query)" by (cases step)
  show ?case
  proof (cases "filterCallback env query d w")
    case (Inl e)
    then show ?thesis using Cons.prems step by simp
  next
    case (Inr r)
    obtain res d1 w1 fx where r: "r = (res, d1, w1, fx)" by (cases r)
    note one = filterCallback_dialog [OF Inr [unfolded r]]
    have "filterCallbacks steps d1 w1 = Inr (d2, w2)"
      using Cons.prems step Inr r by simp
    from Cons.IH [OF this] one show ?thesis by simp
  qed
qed

lemma showDialog_records:
  assumes "showDialog env prefix initialString d w = Inr (d1, w1, fx)" and "\<not> isOpen d"
    and "getCurrentDocument env = Some curDoc" and "getCurrentFullEditor env = Some ed"
  shows "origSelections d1 = Some (ed_selections ed) \<and>
         origScrollPos d1 = Some (ed_scrollPos ed) \<and>
         origDocPath d1 = Some (doc_fullPath curDoc) \<and> isOpen d1"
  using assms
  by (auto simp: showDialog_def Let_def new_promise_def split: sum.splits prod.splits)

lemma handleCloseBar_effects:
  "snd (handleCloseBar env reason p d) =
     map (\<lambda>plugin. PluginDone (plugin_name plugin))
       (filter plugin_done (getPluginsForCurrentContext env)) @
     [SearchFieldDestroy] @
     (if reason = CLOSE_ESCAPE
      then (case getCurrentFullEditor env of
              None \<Rightarrow> []
            | Some editor \<Rightarrow>
                (case origSelections d of None \<Rightarrow> [] | Some sels \<Rightarrow> [EditorSetSelections sels]) @
                (case origScrollPos d of None \<Rightarrow> [] | Some (x, y) \<Rightarrow> [EditorSetScrollPos x y]))
      else [])"
  by (simp add: handleCloseBar_def Let_def split: option.splits)


text \<open>
  C8. When \<open>showDialog\<close> is called with a document open, the dialog records the
  selections and the scroll position of the current full editor. They stay recorded
  through every later query. When the modal bar then closes with reason
  \<open>ModalBar.CLOSE_ESCAPE\<close> and there is a current full editor, \<open>_handleCloseBar\<close> ends by
  setting exactly those selections and that scroll position on it; for any other reason,
  and when there is no editor, it makes no call on an editor at all.
\<close>

theorem escape_restores:
  fixes env env' :: "('o, 'r, 'm) env"
  assumes shown: "showDialog env prefix initialString d w = Inr (d1, w1, fx)"
    and closed: "\<not> isOpen d"
    and doc: "getCurrentDocument env = Some curDoc"
    and editor: "getCurrentFullEditor env = Some ed"
    and queries: "filterCallbacks steps d1 w' = Inr (d2, w2)"
    and dones: "dones =
      map (\<lambda>plugin. PluginDone (plugin_name plugin))
        (filter plugin_done (getPluginsForCurrentContext env'))"
  shows
    "origSelections d1 = Some (ed_selections ed) \<and>
     origScrollPos d1 = Some (ed_scrollPos ed) \<and>
     (\<forall>ed'. getCurrentFullEditor env' = Some ed' \<longrightarrow>
        snd (handleCloseBar env' CLOSE_ESCAPE p d2) =
          dones @ [SearchFieldDestroy, EditorSetSelections (ed_selections ed),
                   EditorSetScrollPos (fst (ed_scrollPos ed)) (snd (ed_scrollPos ed))]) \<and>
     (getCurrentFullEditor env' = None \<longrightarrow>
        snd (handleCloseBar env' CLOSE_ESCAPE p d2) = dones @ [SearchFieldDestroy]) \<and>
     (\<forall>reason. reason \<noteq> CLOSE_ESCAPE \<longrightarrow>
        snd (handleCloseBar env' reason p d2) = dones @ [SearchFieldDestroy])"
proof -
  note rec = showDialog_records [OF shown closed doc editor]
  note keep = filterCallbacks_dialog [OF queries]
  have sel: "origSelections d2 = Some (ed_selections ed)"
    and scroll: "origScrollPos d2 = Some (ed_scrollPos ed)"
    using rec keep by simp_all
  have escape: "snd (handleCloseBar env' CLOSE_ESCAPE p d2) =
      dones @ [SearchFieldDestroy, EditorSetSelections (ed_selections ed),
               EditorSetScrollPos (fst (ed_scrollPos ed)) (snd (ed_scrollPos ed))]"
    if "getCurrentFullEditor env' = Some ed'" for ed'
    using that sel scroll
    by (simp add: handleCloseBar_effects dones split: prod.splits)
  have none: "snd (handleCloseBar env' CLOSE_ESCAPE p d2) = dones @ [SearchFieldDestroy]"
    if "getCurrentFullEditor env' = None"
    using that by (simp add: handleCloseBar_effects dones)
  have other: "snd (handleCloseBar env' reason p d2) = dones @ [SearchFieldDestroy]"
    if "reason \<noteq> CLOSE_ESCAPE" for reason
    using that by (simp add: handleCloseBar_effects dones)
  show ?thesis using rec escape none other by blast
qed

theorem escape_restores_witness:
  "\<not> isOpen (sample_dialog\<lparr>isOpen := False\<rparr>) \<and>
   getCurrentFullEditor sample_env = Some sample_editor \<and>
   (\<exists>d1 w1 fx d2 w2.
      showDialog sample_env (Some ''@'') None (sample_dialog\<lparr>isOpen := False\<rparr>) sample_world =
        Inr (d1, w1, fx) \<and>
      filterCallbacks [(sample_env, ''@foo'')] d1 w1 = Inr (d2, w2) \<and>
      origSelections d1 = Some (ed_selections sample_editor) \<and>
      snd (handleCloseBar sample_env CLOSE_ESCAPE 1 d2) =
        [PluginDone ''symbols'', SearchFieldDestroy,
         EditorSetSelections
           [\<lparr>sel_start = (2, 0), sel_end = (2, 5), sel_primary = True, sel_reversed = False\<rparr>],
         EditorSetScrollPos (Num 0) (Num 120)] \<and>
      snd (handleCloseBar sample_env (CLOSE_OTHER ''blur'') 1 d2) =
        [PluginDone ''symbols'', SearchFieldDestroy])"
proof -
  let ?d = "sample_dialog\<lparr>isOpen := False\<rparr>"
  let ?doc = "\<lparr>doc_fullPath = ''/p/main.js'', doc_languageId = ''javascript''\<rparr>"
  have closed: "\<not> isOpen ?d" by simp
  have doc: "getCurrentDocument sample_env = Some ?doc"
    and ed: "getCurrentFullEditor sample_env = Some sample_editor"
    by (simp_all add: sample_env_def)
  have dones: "[PluginDone ''symbols''] =
      map (\<lambda>plugin. PluginDone (plugin_name plugin))
        (filter plugin_done (getPluginsForCurrentContext sample_env))"
    by (simp add: getPluginsForCurrentContext_def sample_env_def sample_plugin_def)
  obtain d1 w1 fx where sd:
    "showDialog sample_env (Some ''@'') None ?d sample_world = Inr (d1, w1, fx)"
    by (simp add: showDialog_def new_promise_def done_with_def promise_status_def
        sample_env_def Let_def)
  have find: "find (\<lambda>plugin. plugin_match plugin ''@foo'')
      (getPluginsForCurrentContext sample_env) = Some sample_plugin"
    by (simp add: getPluginsForCurrentContext_def sample_env_def sample_plugin_def)
  obtain d2 w2 where fc: "filterCallbacks [(sample_env, ''@foo'')] d1 w1 = Inr (d2, w2)"
    using filterCallback_plugin [OF sample_at_query _ find, of d1 w1]
    by (cases "lookup_matcher (matchers d1) (plugin_name sample_plugin)") auto
  note t = escape_restores [OF sd closed doc ed fc dones, of 1]
  have esc: "snd (handleCloseBar sample_env CLOSE_ESCAPE 1 d2) =
      [PluginDone ''symbols'', SearchFieldDestroy,
       EditorSetSelections
         [\<lparr>sel_start = (2, 0), sel_end = (2, 5), sel_primary = True, sel_reversed = False\<rparr>],
       EditorSetScrollPos (Num 0) (Num 120)]"
    using t [THEN conjunct2, THEN conjunct2, THEN conjunct1, rule_format, OF ed]
    by (simp add: sample_editor_def)
  have blur: "snd (handleCloseBar sample_env (CLOSE_OTHER ''blur'') 1 d2) =
      [PluginDone ''symbols'', SearchFieldDestroy]"
    using t [THEN conjunct2, THEN conjunct2, THEN conjunct2, THEN conjunct2, rule_format,
        of "CLOSE_OTHER ''blur''"]
    by simp
  show ?thesis
    using closed ed sd fc t [THEN conjunct1] esc blur by blast
qed

subsection \<open>C10: closing twice and searching while closing\<close>

lemma close_closed: "\<not> isOpen d \<Longrightarrow> close env d w = (closePromise d, d, w, [])"
  by (simp add: close_def)

lemma close_open:
  assumes "isOpen d"
  shows "\<exists>d1 w1 fx. close env d w = (Some (length (promises w)), d1, w1, ModalBarClose # fx) \<and>
           \<not> isOpen d1 \<and> closePromise d1 = Some (length (promises w))"
  using assms by (simp add: close_def new_promise_def handleCloseBar_def Let_def)

lemma world_curDialog: "curDialog w = Some d \<Longrightarrow> w\<lparr>curDialog := Some d\<rparr> = w"
  by simp

lemma beginSearch_closing:
  assumes "curDialog w = Some d" and "\<not> isOpen d" and "closePromise d = Some p"
  shows "beginSearch env prefix initialString w =
         done_with (\<lambda>v. createDialog env prefix initialString) p
           (CreateDialog prefix initialString) w"
proof -
  have eq: "w\<lparr>curDialog := Some d\<rparr> = w"
    using assms(1) by (rule world_curDialog)
  show ?thesis
    using assms by (cases "done_with (\<lambda>v. createDialog env prefix initialString) p
        (CreateDialog prefix initialString) w") (auto simp: beginSearch_def close_def eq)
qed

lemma createDialog_opens:
  assumes "createDialog env prefix initialString w = Inr (w2, fx)"
  shows "\<exists>d2. curDialog w2 = Some d2 \<and> isOpen d2 \<and> matchers d2 = Map.empty \<and>
           hd fx = ModalBarOpen"
  using assms
  by (auto simp: createDialog_def new_dialog_def showDialog_def Let_def
      split: sum.splits prod.splits option.splits)

lemma resolve_with_createDialog:
  assumes "promise_status w p = Pending"
  shows "resolve_promise env' p v (add_callback p (CreateDialog prefix initialString) w) =
         (case run_callbacks env' v (callbacks (promises w ! p))
                 (w\<lparr>promises := (promises w)[p := \<lparr>status = Resolved v, callbacks = []\<rparr>]\<rparr>) of
            Inl e \<Rightarrow> Inl e
          | Inr (ws, fxs) \<Rightarrow>
              (case createDialog env' prefix initialString ws of
                 Inl e \<Rightarrow> Inl e
               | Inr (w2, fx2) \<Rightarrow> Inr (w2, fxs @ fx2)))"
proof -
  have p: "p < length (promises w)" "status (promises w ! p) = Pending"
    using assms by (auto simp: promise_status_def split: if_splits)
  let ?w1 = "add_callback p (CreateDialog prefix initialString) w"
  have st: "promise_status ?w1 p = Pending"
    using p by (simp add: promise_status_def add_callback_def)
  have cbs: "callbacks (promises ?w1 ! p) =
      callbacks (promises w ! p) @ [CreateDialog prefix initialString]"
    using p by (simp add: add_callback_def)
  have upd: "?w1\<lparr>promises := (promises ?w1)[p := \<lparr>status = Resolved v, callbacks = []\<rparr>]\<rparr> =
      w\<lparr>promises := (promises w)[p := \<lparr>status = Resolved v, callbacks = []\<rparr>]\<rparr>"
    using p by (simp add: add_callback_def)
  show ?thesis
    unfolding resolve_promise_def
    by (simp only: st cbs upd if_True run_callbacks_append)
      (auto simp: run_callback_def split: sum.splits)
qed


text \<open>
  C10. On a dialog that is not open \<open>close()\<close> returns the stored \<open>closePromise\<close> and does
  nothing else: no call of \<open>modalBar.close()\<close>, no change of state. A dialog that has begun
  to close, through \<open>close()\<close> or through the bar's \<open>close\<close> event, is in that state with
  the bar's promise stored, so every further \<open>close()\<close> returns that promise.
  \<open>beginSearch\<close> on such a dialog registers \<open>createDialog\<close> on that same promise: while the
  promise is pending the current dialog stays as it is and nothing is shown, and when the
  promise resolves \<open>createDialog\<close> runs (after the callbacks registered before it) and
  leaves a new, open dialog as the current one. If the promise has already resolved,
  \<open>createDialog\<close> runs at once.
\<close>

theorem close_idempotent:
  fixes env env' :: "('o, 'r, 'm) env"
  shows
    "(\<not> isOpen d \<longrightarrow> close env d w = (closePromise d, d, w, [])) \<and>
     (isOpen d \<longrightarrow>
        (\<exists>d1 w1 fx.
           close env d w = (Some (length (promises w)), d1, w1, ModalBarClose # fx) \<and>
           \<not> isOpen d1 \<and> closePromise d1 = Some (length (promises w)) \<and>
           (\<forall>w'. close env' d1 w' = (Some (length (promises w)), d1, w', [])))) \<and>
     (\<forall>w'. close env' (fst (handleCloseBar env reason p d)) w' =
        (Some p, fst (handleCloseBar env reason p d), w', [])) \<and>
     (curDialog w = Some d \<and> \<not> isOpen d \<and> closePromise d = Some p \<and>
      promise_status w p = Pending \<longrightarrow>
        beginSearch env prefix initialString w =
          Inr (add_callback p (CreateDialog prefix initialString) w, []) \<and>
        curDialog (add_callback p (CreateDialog prefix initialString) w) = Some d \<and>
        resolve_promise env' p v (add_callback p (CreateDialog prefix initialString) w) =
          (case run_callbacks env' v (callbacks (promises w ! p))
                  (w\<lparr>promises := (promises w)[p := \<lparr>status = Resolved v, callbacks = []\<rparr>]\<rparr>) of
             Inl e \<Rightarrow> Inl e
           | Inr (ws, fxs) \<Rightarrow>
               (case createDialog env' prefix initialString ws of
                  Inl e \<Rightarrow> Inl e
                | Inr (w2, fx2) \<Rightarrow> Inr (w2, fxs @ fx2)))) \<and>
     (\<forall>v. curDialog w = Some d \<and> \<not> isOpen d \<and> closePromise d = Some p \<and>
          promise_status w p = Resolved v \<longrightarrow>
        beginSearch env prefix initialString w = createDialog env prefix initialString w) \<and>
     (\<forall>w2 fx. createDialog env prefix initialString w = Inr (w2, fx) \<longrightarrow>
        (\<exists>d2. curDialog w2 = Some d2 \<and> isOpen d2 \<and> hd fx = ModalBarOpen))"
proof -
  have a: "close env d w = (closePromise d, d, w, [])" if "\<not> isOpen d"
    using that by (rule close_closed)
  have b: "\<exists>d1 w1 fx.
      close env d w = (Some (length (promises w)), d1, w1, ModalBarClose # fx) \<and>
      \<not> isOpen d1 \<and> closePromise d1 = Some (length (promises w)) \<and>
      (\<forall>w'. close env' d1 w' = (Some (length (promises w)), d1, w', []))"
    if opn: "isOpen d"
  proof -
    obtain d1 w1 fx where c:
      "close env d w = (Some (length (promises w)), d1, w1, ModalBarClose # fx)"
      "\<not> isOpen d1" "closePromise d1 = Some (length (promises w))"
      using close_open [OF opn, of env w] by blast
    have "close env' d1 w' = (Some (length (promises w)), d1, w', [])" for w'
      using close_closed [OF c(2), of env' w'] c(3) by simp
    then show ?thesis using c by blast
  qed
  have c: "close env' (fst (handleCloseBar env reason p d)) w' =
      (Some p, fst (handleCloseBar env reason p d), w', [])" for w'
    by (simp add: close_def handleCloseBar_def Let_def)
  have reg: "beginSearch env prefix initialString w =
        Inr (add_callback p (CreateDialog prefix initialString) w, []) \<and>
      curDialog (add_callback p (CreateDialog prefix initialString) w) = Some d \<and>
      resolve_promise env' p v (add_callback p (CreateDialog prefix initialString) w) =
        (case run_callbacks env' v (callbacks (promises w ! p))
                (w\<lparr>promises := (promises w)[p := \<lparr>status = Resolved v, callbacks = []\<rparr>]\<rparr>) of
           Inl e \<Rightarrow> Inl e
         | Inr (ws, fxs) \<Rightarrow>
             (case createDialog env' prefix initialString ws of
                Inl e \<Rightarrow> Inl e
              | Inr (w2, fx2) \<Rightarrow> Inr (w2, fxs @ fx2)))"
    if h: "curDialog w = Some d \<and> \<not> isOpen d \<and> closePromise d = Some p \<and>
        promise_status w p = Pending"
  proof -
    have "beginSearch env prefix initialString w =
        Inr (add_callback p (CreateDialog prefix initialString) w, [])"
      using beginSearch_closing [of w d p env prefix initialString] h
      by (simp add: done_with_def)
    moreover have "curDialog (add_callback p (CreateDialog prefix initialString) w) = Some d"
      using h by (simp add: add_callback_frame)
    ultimately show ?thesis
      using resolve_with_createDialog [of w p env' v prefix initialString] h by simp
  qed
  have now: "beginSearch env prefix initialString w = createDialog env prefix initialString w"
    if "curDialog w = Some d \<and> \<not> isOpen d \<and> closePromise d = Some p \<and>
        promise_status w p = Resolved v" for v
    using beginSearch_closing [of w d p env prefix initialString] that
    by (simp add: done_with_def)
  have opens: "\<exists>d2. curDialog w2 = Some d2 \<and> isOpen d2 \<and> hd fx = ModalBarOpen"
    if "createDialog env prefix initialString w = Inr (w2, fx)" for w2 fx
    using createDialog_opens [OF that] by blast
  show ?thesis using a b c reg now opens by blast
qed


theorem close_idempotent_witness:
  "close sample_env (sample_dialog\<lparr>isOpen := False, closePromise := Some 0\<rparr>)
     (sample_world\<lparr>curDialog := Some (sample_dialog\<lparr>isOpen := False, closePromise := Some 0\<rparr>),
                   promises := [\<lparr>status = Pending, callbacks = []\<rparr>]\<rparr>) =
     (Some 0, sample_dialog\<lparr>isOpen := False, closePromise := Some 0\<rparr>,
      sample_world\<lparr>curDialog := Some (sample_dialog\<lparr>isOpen := False, closePromise := Some 0\<rparr>),
                    promises := [\<lparr>status = Pending, callbacks = []\<rparr>]\<rparr>, []) \<and>
   beginSearch sample_env (Some ''@'') None
     (sample_world\<lparr>curDialog := Some (sample_dialog\<lparr>isOpen := False, closePromise := Some 0\<rparr>),
                   promises := [\<lparr>status = Pending, callbacks = []\<rparr>]\<rparr>) =
     Inr (sample_world\<lparr>curDialog := Some (sample_dialog\<lparr>isOpen := False, closePromise := Some 0\<rparr>),
                       promises := [\<lparr>status = Pending,
                                      callbacks = [CreateDialog (Some ''@'') None]\<rparr>]\<rparr>, []) \<and>
   (\<exists>w2 fx d2.
      resolve_promise sample_env 0 NoValue
        (sample_world\<lparr>curDialog := Some (sample_dialog\<lparr>isOpen := False, closePromise := Some 0\<rparr>),
                      promises := [\<lparr>status = Pending,
                                     callbacks = [CreateDialog (Some ''@'') None]\<rparr>]\<rparr>) =
        Inr (w2, fx) \<and>
      curDialog w2 = Some d2 \<and> isOpen d2 \<and> hd fx = ModalBarOpen)"
proof -
  let ?dc = "sample_dialog\<lparr>isOpen := False, closePromise := Some 0\<rparr>"
  let ?w = "sample_world\<lparr>curDialog := Some ?dc,
                        promises := [\<lparr>status = Pending, callbacks = []\<rparr>]\<rparr>"
  let ?cb = "CreateDialog (Some ''@'') None"
  let ?w1 = "sample_world\<lparr>curDialog := Some ?dc,
                         promises := [\<lparr>status = Pending, callbacks = [?cb]\<rparr>]\<rparr>"
  let ?ws = "?w\<lparr>promises := (promises ?w)[0 := \<lparr>status = Resolved NoValue, callbacks = []\<rparr>]\<rparr>"
  note t = close_idempotent [where d = ?dc and w = ?w and p = 0 and env = sample_env
      and env' = sample_env and prefix = "Some ''@''" and initialString = None and v = NoValue]
  have closed: "\<not> isOpen ?dc" by simp
  have hyp: "curDialog ?w = Some ?dc \<and> \<not> isOpen ?dc \<and> closePromise ?dc = Some 0 \<and>
      promise_status ?w 0 = Pending"
    by (simp add: promise_status_def)
  have add: "add_callback 0 ?cb ?w = ?w1"
    by (simp add: add_callback_def)
  have one: "close sample_env ?dc ?w = (Some 0, ?dc, ?w, [])"
    using t [THEN conjunct1, rule_format, OF closed] by simp
  note reg = t [THEN conjunct2, THEN conjunct2, THEN conjunct2, THEN conjunct1, rule_format,
      OF hyp]
  have two: "beginSearch sample_env (Some ''@'') None ?w = Inr (?w1, [])"
    using reg [THEN conjunct1] add by simp
  obtain w2 fx where cd: "createDialog sample_env (Some ''@'') None ?ws = Inr (w2, fx)"
    by (simp add: createDialog_def new_dialog_def showDialog_def new_promise_def
        done_with_def promise_status_def sample_env_def Let_def)
  obtain d2 where d2: "curDialog w2 = Some d2" "isOpen d2" "hd fx = ModalBarOpen"
    using close_idempotent [where w = ?ws and env = sample_env and prefix = "Some ''@''"
        and initialString = None, THEN conjunct2, THEN conjunct2, THEN conjunct2,
        THEN conjunct2, THEN conjunct2, rule_format, OF cd]
    by blast
  have "resolve_promise sample_env 0 NoValue ?w1 = Inr (w2, fx)"
    using reg [THEN conjunct2, THEN conjunct2] add cd by simp
  then have three: "\<exists>w2 fx d2. resolve_promise sample_env 0 NoValue ?w1 = Inr (w2, fx) \<and>
      curDialog w2 = Some d2 \<and> isOpen d2 \<and> hd fx = ModalBarOpen"
    using d2 by blast
  show ?thesis using one two three by (intro conjI)
qed

subsection \<open>C2: failed document loads\<close>

lemma setMenuItemState_quiet: "ConsoleError e \<notin> set (setMenuItemStateForLanguage fenv languageId)"
  by (simp add: setMenuItemStateForLanguage_def Let_def)

text \<open>
  C2. The handler of \<open>currentFileChange\<close> itself logs nothing and has no failing outcome.
  When it loads the documents (there is a new file and its language is not binary), a
  failure to load the new file's document is logged with \<open>console.error\<close>, and that is all
  its callbacks do; a failure to load the old file's document is logged with
  \<open>console.error\<close> exactly when the error is not \<open>FileSystemError.UNSUPPORTED_ENCODING\<close>, and
  otherwise nothing happens. Nothing else is ever logged.
\<close>

theorem currentFileChange_logs:
  fixes fenv :: "('o, 'r, 'e) file_env"
  assumes new: "newFile = Some newFilePath" and plain: "\<not> language_isBinary fenv newFilePath"
    and change: "r = currentFileChange fenv newFile oldFile"
  shows
    "(\<forall>e. ConsoleError e \<notin> set (fc_handler r)) \<and>
     (\<forall>err. getDocumentForPath fenv newFilePath = Failed err \<longrightarrow>
        fc_newDoc r = [ConsoleError err]) \<and>
     (\<forall>e. ConsoleError e \<in> set (fc_newDoc r) \<longrightarrow>
        getDocumentForPath fenv newFilePath = Failed e) \<and>
     (\<forall>oldFilePath err.
        oldFile = Some oldFilePath \<and> getDocumentForPath fenv oldFilePath = Failed err \<longrightarrow>
        fc_oldDoc r = (if err \<noteq> UNSUPPORTED_ENCODING fenv then [ConsoleError err] else [])) \<and>
     (\<forall>e. ConsoleError e \<in> set (fc_oldDoc r) \<longrightarrow>
        e \<noteq> UNSUPPORTED_ENCODING fenv \<and>
        (\<exists>oldFilePath. oldFile = Some oldFilePath \<and>
           getDocumentForPath fenv oldFilePath = Failed e))"
proof -
  have h: "fc_handler r = setMenuItemStateForLanguage fenv (language_id fenv newFilePath)"
    using new plain by (simp add: change currentFileChange_def)
  have n: "fc_newDoc r =
      (case getDocumentForPath fenv newFilePath of
         Loaded \<Rightarrow> [DocOff newFilePath, DocOn newFilePath]
       | Failed err \<Rightarrow> [ConsoleError err]
       | Unsettled \<Rightarrow> [])"
    using new plain by (simp add: change currentFileChange_def)
  have o: "fc_oldDoc r =
      (case oldFile of
         None \<Rightarrow> []
       | Some oldFilePath \<Rightarrow>
           (case getDocumentForPath fenv oldFilePath of
              Loaded \<Rightarrow> [DocOff oldFilePath]
            | Failed err \<Rightarrow>
                if err \<noteq> UNSUPPORTED_ENCODING fenv then [ConsoleError err] else []
            | Unsettled \<Rightarrow> []))"
    using new plain by (simp add: change currentFileChange_def)
  have a: "\<forall>e. ConsoleError e \<notin> set (fc_handler r)"
    by (simp add: h setMenuItemState_quiet)
  have b: "\<forall>err. getDocumentForPath fenv newFilePath = Failed err \<longrightarrow>
      fc_newDoc r = [ConsoleError err]"
    by (simp add: n)
  have c: "\<forall>e. ConsoleError e \<in> set (fc_newDoc r) \<longrightarrow>
      getDocumentForPath fenv newFilePath = Failed e"
    by (auto simp: n split: load.splits)
  have d: "\<forall>oldFilePath err.
      oldFile = Some oldFilePath \<and> getDocumentForPath fenv oldFilePath = Failed err \<longrightarrow>
      fc_oldDoc r = (if err \<noteq> UNSUPPORTED_ENCODING fenv then [ConsoleError err] else [])"
    by (simp add: o)
  have e: "\<forall>e. ConsoleError e \<in> set (fc_oldDoc r) \<longrightarrow>
      e \<noteq> UNSUPPORTED_ENCODING fenv \<and>
      (\<exists>oldFilePath. oldFile = Some oldFilePath \<and>
         getDocumentForPath fenv oldFilePath = Failed e)"
  proof (intro allI impI)
    fix e
    assume m: "ConsoleError e \<in> set (fc_oldDoc r)"
    then obtain old where old: "oldFile = Some old"
      using o by (cases oldFile) auto
    show "e \<noteq> UNSUPPORTED_ENCODING fenv \<and>
        (\<exists>oldFilePath. oldFile = Some oldFilePath \<and>
           getDocumentForPath fenv oldFilePath = Failed e)"
    proof (cases "getDocumentForPath fenv old")
      case Loaded
      then show ?thesis using m o old by simp
    next
      case (Failed err)
      then show ?thesis using m o old by (cases "err = UNSUPPORTED_ENCODING fenv") auto
    next
      case Unsettled
      then show ?thesis using m o old by simp
    qed
  qed
  show ?thesis using a b c d e by (intro conjI)
qed

theorem currentFileChange_logs_witness:
  "\<not> language_isBinary sample_file_env ''/p/gone.js'' \<and>
   getDocumentForPath sample_file_env ''/p/gone.js'' = Failed ''NotFound'' \<and>
   getDocumentForPath sample_file_env ''/p/old.bin'' = Failed ''UnsupportedEncoding'' \<and>
   currentFileChange sample_file_env (Some ''/p/gone.js'') (Some ''/p/old.bin'') =
     \<lparr>fc_handler = [SetEnabled NAVIGATE_GOTO_DEFINITION True,
                    SetEnabled NAVIGATE_GOTO_DEFINITION_PROJECT False],
      fc_newDoc = [ConsoleError ''NotFound''], fc_oldDoc = []\<rparr> \<and>
   currentFileChange sample_file_env (Some ''/p/a.js'') (Some ''/p/gone.js'') =
     \<lparr>fc_handler = [SetEnabled NAVIGATE_GOTO_DEFINITION True,
                    SetEnabled NAVIGATE_GOTO_DEFINITION_PROJECT False],
      fc_newDoc = [DocOff ''/p/a.js'', DocOn ''/p/a.js''],
      fc_oldDoc = [ConsoleError ''NotFound'']\<rparr>"
proof -
  let ?r = "currentFileChange sample_file_env (Some ''/p/gone.js'') (Some ''/p/old.bin'')"
  have plain: "\<not> language_isBinary sample_file_env ''/p/gone.js''"
    by (simp add: sample_file_env_def)
  have f1: "getDocumentForPath sample_file_env ''/p/gone.js'' = Failed ''NotFound''"
    and f2: "getDocumentForPath sample_file_env ''/p/old.bin'' = Failed ''UnsupportedEncoding''"
    by (simp_all add: sample_file_env_def)
  note t = currentFileChange_logs [OF refl plain refl, where oldFile = "Some ''/p/old.bin''"]
  have n: "fc_newDoc ?r = [ConsoleError ''NotFound'']"
    using t [THEN conjunct2, THEN conjunct1, rule_format, OF f1] .
  have o: "fc_oldDoc ?r = []"
    using t [THEN conjunct2, THEN conjunct2, THEN conjunct2, THEN conjunct1, rule_format,
        OF conjI [OF refl f2]]
    by (simp add: sample_file_env_def)
  have h: "fc_handler ?r = [SetEnabled NAVIGATE_GOTO_DEFINITION True,
      SetEnabled NAVIGATE_GOTO_DEFINITION_PROJECT False]"
    by (simp add: currentFileChange_def setMenuItemStateForLanguage_def canHandleTrigger_def
        sample_file_env_def sample_plugin_def)
  have one: "?r = \<lparr>fc_handler = [SetEnabled NAVIGATE_GOTO_DEFINITION True,
                    SetEnabled NAVIGATE_GOTO_DEFINITION_PROJECT False],
      fc_newDoc = [ConsoleError ''NotFound''], fc_oldDoc = []\<rparr>"
    using h n o by (cases ?r) simp
  have two: "currentFileChange sample_file_env (Some ''/p/a.js'') (Some ''/p/gone.js'') =
     \<lparr>fc_handler = [SetEnabled NAVIGATE_GOTO_DEFINITION True,
                    SetEnabled NAVIGATE_GOTO_DEFINITION_PROJECT False],
      fc_newDoc = [DocOff ''/p/a.js'', DocOn ''/p/a.js''],
      fc_oldDoc = [ConsoleError ''NotFound'']\<rparr>"
    by (simp add: currentFileChange_def setMenuItemStateForLanguage_def canHandleTrigger_def
        sample_file_env_def sample_plugin_def)
  show ?thesis using plain f1 f2 one two by (intro conjI)
qed

end
